theory Spec2Isabelle
  imports Main "HOL-Library.Multiset"
begin

section \<open>Data model of \<open>static/index.js\<close>\<close>

text \<open>
  A JavaScript \<open>Date\<close> is kept as the value it was constructed from: \<open>Date s\<close> is
  \<open>new Date(s)\<close>. The timestamps of a request are the \<open>getTime()\<close> of such objects; the
  model keeps the object itself in the request.
\<close>

datatype date = Date string

definition parseTime :: "string \<Rightarrow> date" where
  "parseTime time_str = Date time_str"

text \<open>
  The entities are the JSON objects of the \<open>sessions\<close> response. Their time fields are
  strings on the wire and \<open>Date\<close> objects after parsing, so the records are polymorphic in
  the type of a time field. The \<open>idcounter\<close> field of a wire session, entry or commit is
  overwritten before it is ever read. For a project and an issue \<open>idcounter\<close> is the property
  as the object has it, \<open>None\<close> when the object has none: the script never writes it.
  Durations of window samples are integers.
\<close>

record window =
  w_time :: int
  w_name :: string

record extra_data =
  category :: string
  windows :: "window list"

record 't session =
  s_start_time :: 't
  s_end_time :: 't
  s_date_group :: string
  s_extra_data :: extra_data
  s_exported :: "int option"
  s_idcounter :: nat

record 't entry =
  e_id :: int
  e_start_time :: 't
  e_end_time :: 't
  e_at :: 't
  e_description :: string
  e_project :: "int option"
  e_date_group :: string
  e_idcounter :: nat

record issue =
  key :: string
  summary :: string
  i_project :: "int option"
  i_idcounter :: "nat option"

record 't commit =
  c_time :: 't
  c_message :: string
  c_issue :: "issue option"
  c_date_group :: string
  c_idcounter :: nat

record project =
  p_id :: int
  p_name :: string
  p_client_name :: string
  p_idcounter :: "nat option"

definition parseTimeEntry :: "string entry \<Rightarrow> date entry" where
  "parseTimeEntry timeEntry =
     \<lparr>e_id = e_id timeEntry,
      e_start_time = parseTime (e_start_time timeEntry),
      e_end_time = parseTime (e_end_time timeEntry),
      e_at = parseTime (e_at timeEntry),
      e_description = e_description timeEntry,
      e_project = e_project timeEntry,
      e_date_group = e_date_group timeEntry,
      e_idcounter = e_idcounter timeEntry\<rparr>"

definition parseSession :: "string session \<Rightarrow> date session" where
  "parseSession session =
     \<lparr>s_start_time = parseTime (s_start_time session),
      s_end_time = parseTime (s_end_time session),
      s_date_group = s_date_group session,
      s_extra_data = s_extra_data session,
      s_exported = s_exported session,
      s_idcounter = s_idcounter session\<rparr>"

definition parseCommit :: "string commit \<Rightarrow> date commit" where
  "parseCommit commit =
     \<lparr>c_time = parseTime (c_time commit),
      c_message = c_message commit,
      c_issue = c_issue commit,
      c_date_group = c_date_group commit,
      c_idcounter = c_idcounter commit\<rparr>"

subsection \<open>Rows and the row collections of the timeline widget\<close>

text \<open>
  A row is the object literal handed to \<open>vis.DataSet\<close>: an id and optional properties.
  \<open>editable\<close> is either a boolean or the object with the three capabilities
  \<open>updateTime\<close>, \<open>remove\<close>, \<open>overrideItems\<close>.
\<close>

datatype editable = Flag bool | Caps bool bool bool

record row =
  r_id :: nat
  r_content :: "string option"
  r_start :: "date option"
  r_end :: "date option"
  r_group :: "string option"
  r_className :: "string option"
  r_title :: "string option"
  r_type :: "string option"
  r_editable :: "editable option"

datatype js_error = TypeError | DuplicateId

text \<open>
  \<open>vis.DataSet\<close> is a library outside the repository. It is modelled by its documented
  contract, as the list of its items in insertion order: the constructor and \<open>add\<close> throw
  when an id is already in the set, \<open>update\<close> merges the given properties into the item
  with that id and creates the item when there is none, \<open>remove\<close> deletes by id, \<open>get\<close>
  returns the item or \<open>null\<close>.
\<close>

type_synonym dataset = "row list"

definition new_DataSet :: "row list \<Rightarrow> js_error + dataset" where
  "new_DataSet rows = (if distinct (map r_id rows) then Inr rows else Inl DuplicateId)"

definition ds_add :: "dataset \<Rightarrow> row \<Rightarrow> js_error + dataset" where
  "ds_add c item = (if r_id item \<in> set (map r_id c) then Inl DuplicateId else Inr (c @ [item]))"

definition or_else :: "'a option \<Rightarrow> 'a option \<Rightarrow> 'a option" where
  "or_else new old = (case new of None \<Rightarrow> old | Some v \<Rightarrow> Some v)"

definition merge_row :: "row \<Rightarrow> row \<Rightarrow> row" where
  "merge_row upd item =
     \<lparr>r_id = r_id item,
      r_content = or_else (r_content upd) (r_content item),
      r_start = or_else (r_start upd) (r_start item),
      r_end = or_else (r_end upd) (r_end item),
      r_group = or_else (r_group upd) (r_group item),
      r_className = or_else (r_className upd) (r_className item),
      r_title = or_else (r_title upd) (r_title item),
      r_type = or_else (r_type upd) (r_type item),
      r_editable = or_else (r_editable upd) (r_editable item)\<rparr>"

definition ds_update :: "dataset \<Rightarrow> row \<Rightarrow> dataset" where
  "ds_update c upd =
     (if r_id upd \<in> set (map r_id c)
      then map (\<lambda>item. if r_id item = r_id upd then merge_row upd item else item) c
      else c @ [upd])"

definition ds_remove :: "dataset \<Rightarrow> nat \<Rightarrow> dataset" where
  "ds_remove c i = filter (\<lambda>item. r_id item \<noteq> i) c"

definition ds_get :: "dataset \<Rightarrow> nat \<Rightarrow> row option" where
  "ds_get c i = find (\<lambda>item. r_id item = i) c"

subsection \<open>\<open>makeRow\<close>\<close>

text \<open>
  \<open>wcmp\<close> orders window samples by descending \<open>time\<close>. \<open>Array.prototype.sort\<close> is a stable
  sort that works in place: the array it is called on is reordered.
\<close>

definition wcmp :: "window \<Rightarrow> window \<Rightarrow> int" where
  "wcmp a b = (if w_time a < w_time b then 1 else if w_time a > w_time b then - 1 else 0)"

fun insert_cmp :: "('a \<Rightarrow> 'a \<Rightarrow> int) \<Rightarrow> 'a \<Rightarrow> 'a list \<Rightarrow> 'a list" where
  "insert_cmp cmp x [] = [x]"
| "insert_cmp cmp x (y # ys) = (if cmp x y \<le> 0 then x # y # ys else y # insert_cmp cmp x ys)"

definition sort_cmp :: "('a \<Rightarrow> 'a \<Rightarrow> int) \<Rightarrow> 'a list \<Rightarrow> 'a list" where
  "sort_cmp cmp xs = foldr (insert_cmp cmp) xs []"

fun string_of_nat :: "nat \<Rightarrow> string" where
  "string_of_nat n =
     (if n < 10 then [char_of (48 + n)]
      else string_of_nat (n div 10) @ [char_of (48 + n mod 10)])"

definition string_of_int :: "int \<Rightarrow> string" where
  "string_of_int i = (if i < 0 then CHR ''-'' # string_of_nat (nat (- i)) else string_of_nat (nat i))"

fun join :: "string \<Rightarrow> string list \<Rightarrow> string" where
  "join sep [] = []"
| "join sep [s] = s"
| "join sep (s # t # ts) = s @ sep @ join sep (t # ts)"

text \<open>
  The \<open>type\<close> argument of \<open>makeRow\<close> is the constructor of the entity: every call passes the
  tag of the object it passes. The result is the row together with the object after the
  call, since the \<open>session\<close> case sorts \<open>obj.extra_data.windows\<close> in place.
\<close>

datatype entity = Session "date session" | Entry "date entry" | Commit "date commit"

definition sort_windows :: "date session \<Rightarrow> date session" where
  "sort_windows obj =
     obj\<lparr>s_extra_data := (s_extra_data obj)\<lparr>windows := sort_cmp wcmp (windows (s_extra_data obj))\<rparr>\<rparr>"

fun makeRow :: "entity \<Rightarrow> row \<times> entity" where
  "makeRow (Session obj) =
     (\<lparr>r_id = s_idcounter obj,
       r_content = Some '''',
       r_start = Some (s_start_time obj),
       r_end = Some (s_end_time obj),
       r_group = Some ''session'',
       r_className = Some (''session-'' @ category (s_extra_data obj)),
       r_title = Some (join ''<br />''
          (map (\<lambda>w. string_of_int (w_time w) @ ''s - '' @ w_name w)
             (take 10 (sort_cmp wcmp (windows (s_extra_data obj)))))),
       r_type = None,
       r_editable = Some (Flag False)\<rparr>,
      Session (sort_windows obj))"
| "makeRow (Entry obj) =
     (\<lparr>r_id = e_idcounter obj,
       r_content = Some (e_description obj),
       r_start = Some (e_start_time obj),
       r_end = Some (e_end_time obj),
       r_group = Some ''entry'',
       r_className = Some ''entry'',
       r_title = Some (e_description obj),
       r_type = None,
       r_editable = Some (Caps True True True)\<rparr>,
      Entry obj)"
| "makeRow (Commit obj) =
     (\<lparr>r_id = c_idcounter obj,
       r_content = Some '''',
       r_start = Some (c_time obj),
       r_end = None,
       r_group = Some ''commit'',
       r_className = Some ''commit'',
       r_title = Some (c_message obj @
          (case c_issue obj of
             Some i \<Rightarrow> ''<br />'' @ key i @ '' '' @ summary i
           | None \<Rightarrow> '''')),
       r_type = Some ''point'',
       r_editable = Some (Flag False)\<rparr>,
      Commit obj)"


section \<open>The store and its operations\<close>

text \<open>
  The global variables of the script. \<open>chartItems\<close> maps a date group to the row
  collection of that day's timeline. A selection holds the selected object, which is
  \<open>undefined\<close> when no entity carries the selected row's id.
\<close>

datatype selected = SelSession "date session option" | SelEntry "date entry option"

record state =
  sessions :: "date session list"
  timeEntries :: "date entry list"
  idCounter :: nat
  log :: "date commit list"
  projects :: "project list"
  issues :: "issue list"
  chartItems :: "string \<rightharpoonup> dataset"
  global_selected :: "selected option"
  global_selected_last :: "selected option"

definition init :: state where
  "init = \<lparr>sessions = [], timeEntries = [], idCounter = 0, log = [], projects = [],
     issues = [], chartItems = Map.empty, global_selected = None,
     global_selected_last = None\<rparr>"

text \<open>
  A handler that throws leaves the globals as they were at the throw, so every handler
  returns the error, if any, together with the state it ended in.
\<close>

type_synonym outcome = "js_error option \<times> state"

subsection \<open>\<open>updateTable\<close>\<close>

definition set_add :: "string list \<Rightarrow> string \<Rightarrow> string list" where
  "set_add s x = (if x \<in> set s then s else s @ [x])"

definition dateGroups_of :: "date session list \<Rightarrow> string list" where
  "dateGroups_of ss = foldl set_add [] (map s_date_group ss)"

text \<open>
  \<open>drawDayChart\<close> builds the rows of one day and stores the new collection under the date
  group of the first session of the day. The DOM container and the \<open>vis.Timeline\<close> object
  are outside the model.
\<close>

definition day_rows :: "date session list \<Rightarrow> date entry list \<Rightarrow> date commit list \<Rightarrow> row list" where
  "day_rows day_sessions day_entries day_log =
     map (\<lambda>session. fst (makeRow (Session session))) day_sessions @
     map (\<lambda>entry. fst (makeRow (Entry entry))) day_entries @
     map (\<lambda>commit. fst (makeRow (Commit commit))) day_log"

definition drawDayChart ::
  "date session list \<Rightarrow> date entry list \<Rightarrow> date commit list \<Rightarrow> state \<Rightarrow> outcome" where
  "drawDayChart day_sessions day_entries day_log st =
     (case new_DataSet (day_rows day_sessions day_entries day_log) of
        Inl err \<Rightarrow> (Some err, st)
      | Inr items \<Rightarrow>
          (case day_sessions of
             [] \<Rightarrow> (Some TypeError, st)
           | s # _ \<Rightarrow> (None, st\<lparr>chartItems := (chartItems st)(s_date_group s \<mapsto> items)\<rparr>)))"

text \<open>
  The objects of \<open>day_sessions\<close> are the objects of \<open>sessions\<close> that the filter selected, so
  the in-place sort of \<open>makeRow\<close> is seen in the store: after the rows of a day are built,
  the window lists of that day's sessions are sorted.
\<close>

definition sort_day_sessions :: "string \<Rightarrow> state \<Rightarrow> state" where
  "sort_day_sessions dateGroup st =
     st\<lparr>sessions := map (\<lambda>s. if s_date_group s = dateGroup then sort_windows s else s) (sessions st)\<rparr>"

fun drawDayCharts :: "string list \<Rightarrow> state \<Rightarrow> outcome" where
  "drawDayCharts [] st = (None, st)"
| "drawDayCharts (dateGroup # rest) st =
     (case drawDayChart
             (filter (\<lambda>s. s_date_group s = dateGroup) (sessions st))
             (filter (\<lambda>s. e_date_group s = dateGroup) (timeEntries st))
             (filter (\<lambda>s. c_date_group s = dateGroup) (log st))
             (sort_day_sessions dateGroup st) of
        (Some err, st') \<Rightarrow> (Some err, st')
      | (None, st') \<Rightarrow> drawDayCharts rest st')"

definition updateTable :: "state \<Rightarrow> outcome" where
  "updateTable st = drawDayCharts (dateGroups_of (sessions st)) st"

subsection \<open>\<open>getSessions\<close>: the load\<close>

record data =
  d_sessions :: "string session list"
  d_time_entries :: "string entry list"
  d_log :: "string commit list"
  d_projects :: "project list"
  d_issues :: "issue list"

fun load_sessions :: "string session list \<Rightarrow> state \<Rightarrow> state" where
  "load_sessions [] st = st"
| "load_sessions (r # rs) st =
     load_sessions rs
       (st\<lparr>sessions := sessions st @ [(parseSession r)\<lparr>s_idcounter := idCounter st\<rparr>],
           idCounter := idCounter st + 1\<rparr>)"

fun load_timeEntries :: "string entry list \<Rightarrow> state \<Rightarrow> state" where
  "load_timeEntries [] st = st"
| "load_timeEntries (r # rs) st =
     load_timeEntries rs
       (st\<lparr>timeEntries := timeEntries st @ [(parseTimeEntry r)\<lparr>e_idcounter := idCounter st\<rparr>],
           idCounter := idCounter st + 1\<rparr>)"

fun load_log :: "string commit list \<Rightarrow> state \<Rightarrow> state" where
  "load_log [] st = st"
| "load_log (r # rs) st =
     load_log rs
       (st\<lparr>log := log st @ [(parseCommit r)\<lparr>c_idcounter := idCounter st\<rparr>],
           idCounter := idCounter st + 1\<rparr>)"

text \<open>
  The \<open>done\<close> callback of \<open>getSessions\<close>. It empties \<open>sessions\<close>, \<open>timeEntries\<close>, \<open>log\<close>,
  \<open>projects\<close> and \<open>chartItems\<close>, fills the collections from the response and calls
  \<open>updateTable\<close>. The \<open>option\<close> elements appended to the page are outside the model.
\<close>

definition getSessions_done :: "data \<Rightarrow> state \<Rightarrow> outcome" where
  "getSessions_done dat st =
     (let st1 = st\<lparr>sessions := [], timeEntries := [], log := [], projects := [],
                   chartItems := Map.empty\<rparr>;
          st2 = load_sessions (d_sessions dat) st1;
          st3 = load_timeEntries (d_time_entries dat) st2;
          st4 = load_log (d_log dat) st3;
          st5 = st4\<lparr>projects := projects st4 @ d_projects dat\<rparr>;
          st6 = st5\<lparr>issues := issues st5 @ d_issues dat\<rparr>
      in updateTable st6)"

subsection \<open>\<open>refreshEntry\<close> and \<open>createEntry\<close>\<close>

text \<open>
  The loop of \<open>refreshEntry\<close> visits the entries in order. At an entry whose \<open>id\<close> equals
  the response's it overwrites three fields and then calls \<open>update\<close> on the row collection
  of the entry's date group, which throws when there is none.
\<close>

definition refresh_payload :: "date entry \<Rightarrow> row" where
  "refresh_payload entry =
     \<lparr>r_id = e_idcounter entry,
      r_content = Some (e_description entry),
      r_start = Some (e_start_time entry),
      r_end = Some (e_end_time entry),
      r_group = None, r_className = None,
      r_title = Some (e_description entry),
      r_type = None, r_editable = None\<rparr>"

definition refresh_fields :: "string entry \<Rightarrow> date entry \<Rightarrow> date entry" where
  "refresh_fields newEntry entry =
     entry\<lparr>e_start_time := parseTime (e_start_time newEntry),
           e_end_time := parseTime (e_end_time newEntry),
           e_description := e_description newEntry\<rparr>"

fun refresh_loop ::
  "string entry \<Rightarrow> date entry list \<Rightarrow> (string \<rightharpoonup> dataset) \<Rightarrow>
     js_error option \<times> date entry list \<times> (string \<rightharpoonup> dataset)" where
  "refresh_loop newEntry [] charts = (None, [], charts)"
| "refresh_loop newEntry (entry # rest) charts =
     (if e_id entry = e_id newEntry then
        (let entry' = refresh_fields newEntry entry in
         case charts (e_date_group entry') of
           None \<Rightarrow> (Some TypeError, entry' # rest, charts)
         | Some c \<Rightarrow>
             (case refresh_loop newEntry rest
                     (charts(e_date_group entry' \<mapsto> ds_update c (refresh_payload entry'))) of
                (err, rest', charts') \<Rightarrow> (err, entry' # rest', charts')))
      else
        (case refresh_loop newEntry rest charts of
           (err, rest', charts') \<Rightarrow> (err, entry # rest', charts')))"

definition refreshEntry :: "string entry \<Rightarrow> state \<Rightarrow> outcome" where
  "refreshEntry newEntry st =
     (case refresh_loop newEntry (timeEntries st) (chartItems st) of
        (err, entries', charts') \<Rightarrow> (err, st\<lparr>timeEntries := entries', chartItems := charts'\<rparr>))"

text \<open>
  \<open>createEntry(session, entry)\<close> reads only \<open>session.date_group\<close>; the model takes that
  string. The entry is pushed before the row collection is looked up.
\<close>

definition createEntry :: "string \<Rightarrow> string entry \<Rightarrow> state \<Rightarrow> outcome" where
  "createEntry session_date_group entry st =
     (let entry1 = parseTimeEntry entry;
          entry2 = entry1\<lparr>e_date_group := session_date_group\<rparr>;
          entry3 = entry2\<lparr>e_idcounter := idCounter st\<rparr>;
          st1 = st\<lparr>idCounter := idCounter st + 1, timeEntries := timeEntries st @ [entry3]\<rparr>
      in case chartItems st1 (e_date_group entry3) of
           None \<Rightarrow> (Some TypeError, st1)
         | Some c \<Rightarrow>
             (case ds_add c (fst (makeRow (Entry entry3))) of
                Inl err \<Rightarrow> (Some err, st1)
              | Inr c' \<Rightarrow> (None, st1\<lparr>chartItems := (chartItems st1)(e_date_group entry3 \<mapsto> c')\<rparr>)))"


section \<open>Requests and their callbacks\<close>

text \<open>
  \<open>$.post(url, fields, callback)\<close> is the pair of the request it sends and the callback
  that runs on the response. The values of the form controls are read when the request
  is built; they are the \<open>form\<close> argument. A timestamp field holds the \<open>Date\<close> whose
  \<open>getTime()\<close> is sent.
\<close>

record form =
  f_description :: string
  f_project :: "string option"
  f_start_time :: string
  f_end_time :: string
  f_split_time :: string

record request =
  url :: string
  q_id :: "int option"
  q_start_time :: "date option"
  q_end_time :: "date option"
  q_split_time :: "date option"
  q_name :: "string option"
  q_project :: "string option"

record split_response =
  entry1 :: "string entry"
  entry2 :: "string entry"


definition updateEntry ::
  "int \<Rightarrow> string \<Rightarrow> form \<Rightarrow> request \<times> (string entry \<Rightarrow> state \<Rightarrow> outcome)" where
  "updateEntry entryId date_str frm =
     (\<lparr>url = ''export'', q_id = Some entryId,
       q_start_time = Some (Date (date_str @ '' '' @ f_start_time frm)),
       q_end_time = Some (Date (date_str @ '' '' @ f_end_time frm)),
       q_split_time = None,
       q_name = Some (f_description frm),
       q_project = f_project frm\<rparr>,
      \<lambda>dat. refreshEntry dat)"

text \<open>The callback of \<open>deleteEntry\<close> shows an alert and touches no global.\<close>

definition deleteEntry_done :: "string \<Rightarrow> state \<Rightarrow> outcome" where
  "deleteEntry_done dat st = (None, st)"

definition deleteEntry :: "int \<Rightarrow> request \<times> (string \<Rightarrow> state \<Rightarrow> outcome)" where
  "deleteEntry entryId =
     (\<lparr>url = ''delete'', q_id = Some entryId, q_start_time = None, q_end_time = None,
       q_split_time = None, q_name = None, q_project = None\<rparr>,
      deleteEntry_done)"

text \<open>
  The callback of \<open>splitEntry\<close> closes over \<open>date_str\<close>: it refreshes from the first entry
  of the response and, unless that threw, creates the second in the date group \<open>date_str\<close>.
\<close>

definition splitEntry_done :: "string \<Rightarrow> split_response \<Rightarrow> state \<Rightarrow> outcome" where
  "splitEntry_done date_str dat st =
     (case refreshEntry (entry1 dat) st of
        (Some err, st') \<Rightarrow> (Some err, st')
      | (None, st') \<Rightarrow> createEntry date_str (entry2 dat) st')"

definition splitEntry ::
  "int \<Rightarrow> string \<Rightarrow> form \<Rightarrow> request \<times> (split_response \<Rightarrow> state \<Rightarrow> outcome)" where
  "splitEntry entryId date_str frm =
     (\<lparr>url = ''split'', q_id = Some entryId,
       q_start_time = Some (Date (date_str @ '' '' @ f_start_time frm)),
       q_end_time = Some (Date (date_str @ '' '' @ f_end_time frm)),
       q_split_time = Some (Date (date_str @ '' '' @ f_split_time frm)),
       q_name = Some (f_description frm),
       q_project = f_project frm\<rparr>,
      splitEntry_done date_str)"

subsection \<open>The handlers of the page\<close>


definition btn_split_click ::
  "form \<Rightarrow> state \<Rightarrow> js_error + (request \<times> (split_response \<Rightarrow> state \<Rightarrow> outcome)) option" where
  "btn_split_click frm st =
     (case global_selected st of
        Some (SelEntry item) \<Rightarrow>
          (case item of
             None \<Rightarrow> Inl TypeError
           | Some entry \<Rightarrow> Inr (Some (splitEntry (e_id entry) (e_date_group entry) frm)))
      | _ \<Rightarrow> Inr None)"

text \<open>
  \<open>indexOf\<close> gives the first position at which the key starts in the text, or \<open>-1\<close>.
  A project is written into the selector when it is truthy: present and not \<open>0\<close>.
  The handler returns the value it writes into \<open>#project\<close>, \<open>None\<close> when it writes nothing.
\<close>

fun indexOf_from :: "int \<Rightarrow> string \<Rightarrow> string \<Rightarrow> int" where
  "indexOf_from i [] k = (if k = [] then i else - 1)"
| "indexOf_from i (c # s) k =
     (if take (length k) (c # s) = k then i else indexOf_from (i + 1) s k)"

definition indexOf :: "string \<Rightarrow> string \<Rightarrow> int" where
  "indexOf s k = indexOf_from 0 s k"

definition truthy :: "int option \<Rightarrow> bool" where
  "truthy v = (case v of None \<Rightarrow> False | Some n \<Rightarrow> n \<noteq> 0)"

definition description_change :: "string \<Rightarrow> state \<Rightarrow> js_error + int option" where
  "description_change val st =
     (let issue = filter (\<lambda>issue. indexOf val (key issue) > - 1) (issues st) in
      if length (issues st) > 0 then
        (case issue of
           [] \<Rightarrow> Inl TypeError
         | i # _ \<Rightarrow> if truthy (i_project i) then Inr (i_project i) else Inr None)
      else Inr None)"

text \<open>
  The options of a day's timeline. \<open>onMove\<close> and \<open>onRemove\<close> look the entry of an
  \<open>entry\<close> row up by its local identity, send the request and pass the item to the
  widget's callback; the widget then stores the moved item in, or removes the item from,
  the row collection of that day. \<open>dateGroup\<close> names the day the timeline belongs to.
  Reading \<open>id\<close> of a missing entry, or \<open>getTime\<close> of a missing start or end, throws
  before the callback is reached.
\<close>

definition first_where :: "('a \<Rightarrow> bool) \<Rightarrow> 'a list \<Rightarrow> 'a option" where
  "first_where p xs = (case filter p xs of [] \<Rightarrow> None | x # _ \<Rightarrow> Some x)"

definition map_chart :: "string \<Rightarrow> (dataset \<Rightarrow> dataset) \<Rightarrow> state \<Rightarrow> state" where
  "map_chart dateGroup f st =
     (case chartItems st dateGroup of
        None \<Rightarrow> st
      | Some c \<Rightarrow> st\<lparr>chartItems := (chartItems st)(dateGroup \<mapsto> f c)\<rparr>)"

definition onMove ::
  "string \<Rightarrow> row \<Rightarrow> form \<Rightarrow> state \<Rightarrow>
     js_error + ((request \<times> (string entry \<Rightarrow> state \<Rightarrow> outcome)) option \<times> state)" where
  "onMove dateGroup item frm st =
     (if r_group item = Some ''entry'' then
        (case first_where (\<lambda>entry. e_idcounter entry = r_id item) (timeEntries st) of
           None \<Rightarrow> Inl TypeError
         | Some entry \<Rightarrow>
             (case (r_start item, r_end item) of
                (Some item_start, Some item_end) \<Rightarrow>
                  Inr (Some (\<lparr>url = ''export'', q_id = Some (e_id entry),
                              q_start_time = Some item_start, q_end_time = Some item_end,
                              q_split_time = None, q_name = Some (f_description frm),
                              q_project = None\<rparr>,
                             \<lambda>dat. refreshEntry dat),
                       map_chart dateGroup (\<lambda>c. ds_update c item) st)
              | _ \<Rightarrow> Inl TypeError))
      else Inr (None, map_chart dateGroup (\<lambda>c. ds_update c item) st))"

definition onRemove ::
  "string \<Rightarrow> row \<Rightarrow> state \<Rightarrow>
     js_error + ((request \<times> (string \<Rightarrow> state \<Rightarrow> outcome)) option \<times> state)" where
  "onRemove dateGroup item st =
     (if r_group item = Some ''entry'' then
        (case first_where (\<lambda>entry. e_idcounter entry = r_id item) (timeEntries st) of
           None \<Rightarrow> Inl TypeError
         | Some entry \<Rightarrow>
             Inr (Some (deleteEntry (e_id entry)),
                  map_chart dateGroup (\<lambda>c. ds_remove c (r_id item)) st))
      else Inr (None, map_chart dateGroup (\<lambda>c. ds_remove c (r_id item)) st))"


text \<open>
  The \<open>select\<close> handler of a day's timeline. The handler reads the collection \<open>items\<close> it
  closed over; the model reads the collection under the day's key in \<open>chartItems\<close>, which
  is that collection until a later load replaces \<open>chartItems\<close>. \<open>items.get\<close> of an unknown id is \<open>null\<close>,
  and of no id at all (an empty selection) it is the array of all items, which has no
  \<open>group\<close>. The writes into the form controls are outside the model; the reads that
  can throw are kept.
\<close>

definition timeline_select :: "string \<Rightarrow> nat list \<Rightarrow> state \<Rightarrow> outcome" where
  "timeline_select dateGroup properties_items st =
     (case chartItems st dateGroup of
        None \<Rightarrow> (None, st)
      | Some items \<Rightarrow>
          (case properties_items of
             [] \<Rightarrow> (None, st)
           | first_id # _ \<Rightarrow>
               (case ds_get items first_id of
                  None \<Rightarrow> (Some TypeError, st)
                | Some selection \<Rightarrow>
                    (let selectionLast = ds_get items (last properties_items);
                         category = r_group selection
                     in if category = Some ''session'' then
                          (let session = first_where (\<lambda>s. s_idcounter s = r_id selection) (sessions st)
                           in case selectionLast of
                                None \<Rightarrow> (Some TypeError, st)
                              | Some sl \<Rightarrow>
                                  (let sessionLast =
                                         first_where (\<lambda>s. s_idcounter s = r_id sl) (sessions st);
                                       st1 = st\<lparr>global_selected := Some (SelSession session),
                                                 global_selected_last := Some (SelSession sessionLast)\<rparr>
                                   in case session of
                                        None \<Rightarrow> (Some TypeError, st1)
                                      | Some s \<Rightarrow>
                                          if truthy (s_exported s) \<and>
                                             first_where (\<lambda>e. Some (e_id e) = s_exported s)
                                               (timeEntries st) = None
                                          then (Some TypeError, st1)
                                          else (None, st1)))
                        else if category = Some ''entry'' then
                          (let entry = first_where (\<lambda>e. e_idcounter e = r_id selection) (timeEntries st);
                               st1 = st\<lparr>global_selected := Some (SelEntry entry)\<rparr>
                           in case entry of
                                None \<Rightarrow> (Some TypeError, st1)
                              | Some _ \<Rightarrow> (None, st1))
                        else (None, st)))))"

section \<open>Runs of the page\<close>

text \<open>
  What can happen to the store: a load arrives; an export, update or move response runs
  its callback; a split or delete response runs its callback; the user drags or removes
  a row of a day's timeline, or selects rows. A widget event carries the id of a row of
  that day's collection.
\<close>

datatype event =
    Loaded data
  | Exported string "string entry"
  | Refreshed "string entry"
  | SplitDone string split_response
  | Deleted string
  | Moved string nat "date option" "date option" form
  | Removed string nat
  | Selected string "nat list"

fun step :: "event \<Rightarrow> state \<Rightarrow> state" where
  "step (Loaded dat) st = snd (getSessions_done dat st)"
| "step (Exported session_date_group dat) st = snd (createEntry session_date_group dat st)"
| "step (Refreshed dat) st = snd (refreshEntry dat st)"
| "step (SplitDone date_str dat) st = snd (splitEntry_done date_str dat st)"
| "step (Deleted dat) st = snd (deleteEntry_done dat st)"
| "step (Moved dateGroup i new_start new_end frm) st =
     (case chartItems st dateGroup of
        None \<Rightarrow> st
      | Some c \<Rightarrow>
          (case ds_get c i of
             None \<Rightarrow> st
           | Some item \<Rightarrow>
               (case onMove dateGroup (item\<lparr>r_start := new_start, r_end := new_end\<rparr>) frm st of
                  Inl err \<Rightarrow> st
                | Inr (req, st') \<Rightarrow> st')))"
| "step (Removed dateGroup i) st =
     (case chartItems st dateGroup of
        None \<Rightarrow> st
      | Some c \<Rightarrow>
          (case ds_get c i of
             None \<Rightarrow> st
           | Some item \<Rightarrow>
               (case onRemove dateGroup item st of
                  Inl err \<Rightarrow> st
                | Inr (req, st') \<Rightarrow> st')))"
| "step (Selected dateGroup properties_items) st = snd (timeline_select dateGroup properties_items st)"

definition run :: "event list \<Rightarrow> state \<Rightarrow> state" where
  "run evs st = foldl (\<lambda>s ev. step ev s) st evs"

text \<open>The local identities held by the store, in the order sessions, entries, commits.\<close>

definition all_ids :: "state \<Rightarrow> nat list" where
  "all_ids st =
     map s_idcounter (sessions st) @ map e_idcounter (timeEntries st) @ map c_idcounter (log st)"

definition rows_of :: "state \<Rightarrow> string \<Rightarrow> row list" where
  "rows_of st dateGroup = (case chartItems st dateGroup of None \<Rightarrow> [] | Some c \<Rightarrow> c)"


section \<open>Notions of the statements\<close>

subsection \<open>The result of a load\<close>

text \<open>
  The entities a load inserts: the parsed objects of the response, numbered from the value
  \<open>n\<close> of the counter on. \<open>filled\<close> is the state at the call of \<open>updateTable\<close>, and
  \<open>group_rows\<close> the projection of the entities of one date group: sessions, then entries,
  then commits, each in the order of its collection.
\<close>

definition loaded_sessions :: "nat \<Rightarrow> string session list \<Rightarrow> date session list" where
  "loaded_sessions n rs =
     map (\<lambda>(r, i). (parseSession r)\<lparr>s_idcounter := i\<rparr>) (zip rs [n..<n + length rs])"

definition loaded_entries :: "nat \<Rightarrow> string entry list \<Rightarrow> date entry list" where
  "loaded_entries n rs =
     map (\<lambda>(r, i). (parseTimeEntry r)\<lparr>e_idcounter := i\<rparr>) (zip rs [n..<n + length rs])"

definition loaded_log :: "nat \<Rightarrow> string commit list \<Rightarrow> date commit list" where
  "loaded_log n rs =
     map (\<lambda>(r, i). (parseCommit r)\<lparr>c_idcounter := i\<rparr>) (zip rs [n..<n + length rs])"

definition filled :: "data \<Rightarrow> state \<Rightarrow> state" where
  "filled dat st =
     st\<lparr>sessions := loaded_sessions (idCounter st) (d_sessions dat),
        timeEntries := loaded_entries (idCounter st + length (d_sessions dat)) (d_time_entries dat),
        log := loaded_log (idCounter st + length (d_sessions dat) + length (d_time_entries dat))
                 (d_log dat),
        projects := d_projects dat,
        issues := issues st @ d_issues dat,
        chartItems := Map.empty,
        idCounter := idCounter st + length (d_sessions dat) + length (d_time_entries dat) +
                       length (d_log dat)\<rparr>"

definition group_rows :: "state \<Rightarrow> string \<Rightarrow> row list" where
  "group_rows st dateGroup =
     day_rows (filter (\<lambda>s. s_date_group s = dateGroup) (sessions st))
       (filter (\<lambda>s. e_date_group s = dateGroup) (timeEntries st))
       (filter (\<lambda>s. c_date_group s = dateGroup) (log st))"

subsection \<open>The effect of a response on an entry and its row\<close>

text \<open>
  \<open>created_entry\<close> is the entry \<open>createEntry\<close> pushes when the counter is \<open>n\<close>.
  \<open>refreshed_row\<close> is a row after \<open>update\<close> with the payload of \<open>refreshEntry\<close>: content,
  start, end and title come from the response, the id and the other properties stay.
  \<open>has_shown\<close> says that the collection of a day holds a row with the id \<open>i\<close> that carries
  the response's description and span.
\<close>

definition created_entry :: "string \<Rightarrow> string entry \<Rightarrow> nat \<Rightarrow> date entry" where
  "created_entry session_date_group entry n =
     (parseTimeEntry entry)\<lparr>e_date_group := session_date_group, e_idcounter := n\<rparr>"

definition refreshed_row :: "string entry \<Rightarrow> row \<Rightarrow> row" where
  "refreshed_row newEntry item =
     item\<lparr>r_content := Some (e_description newEntry),
          r_start := Some (parseTime (e_start_time newEntry)),
          r_end := Some (parseTime (e_end_time newEntry)),
          r_title := Some (e_description newEntry)\<rparr>"

definition shows_response :: "string entry \<Rightarrow> row \<Rightarrow> bool" where
  "shows_response newEntry item \<longleftrightarrow>
     r_content item = Some (e_description newEntry) \<and>
     r_title item = Some (e_description newEntry) \<and>
     r_start item = Some (parseTime (e_start_time newEntry)) \<and>
     r_end item = Some (parseTime (e_end_time newEntry))"

definition has_shown :: "string entry \<Rightarrow> (string \<rightharpoonup> dataset) \<Rightarrow> string \<Rightarrow> nat \<Rightarrow> bool" where
  "has_shown n ch d i \<longleftrightarrow>
     (case ch d of None \<Rightarrow> False | Some c \<Rightarrow> list_ex (\<lambda>r. r_id r = i \<and> shows_response n r) c)"

subsection \<open>Local identities along a run\<close>

text \<open>
  \<open>ids_ok\<close>: the local identities in the store are pairwise distinct and below the
  counter. \<open>keeps_ids\<close> relates the states before and after an event that is not a load:
  the sessions and commits carry the identities they carried, in the same order; so do
  the entries that were there, and the entries appended after them carry the values the
  counter ran through. \<open>rows_ok\<close> and \<open>sessions_charted\<close> hold in every state of a run:
  the id of every row is below the counter, and the date group of every session has a row
  collection. \<open>same_entities\<close> and \<open>charts_shrink\<close> describe the events of the widget,
  which leave the entities alone and add no row id to any collection.
\<close>

definition ids_ok :: "state \<Rightarrow> bool" where
  "ids_ok st \<longleftrightarrow> distinct (all_ids st) \<and> (\<forall>i\<in>set (all_ids st). i < idCounter st)"

definition rows_ok :: "state \<Rightarrow> bool" where
  "rows_ok st \<longleftrightarrow> (\<forall>d c. chartItems st d = Some c \<longrightarrow> (\<forall>r\<in>set c. r_id r < idCounter st))"

definition sessions_charted :: "state \<Rightarrow> bool" where
  "sessions_charted st \<longleftrightarrow> (\<forall>s\<in>set (sessions st). chartItems st (s_date_group s) \<noteq> None)"

definition inv :: "state \<Rightarrow> bool" where
  "inv st \<longleftrightarrow> ids_ok st \<and> rows_ok st \<and> sessions_charted st"

fun is_load :: "event \<Rightarrow> bool" where
  "is_load (Loaded dat) = True"
| "is_load ev = False"

definition keeps_ids :: "state \<Rightarrow> state \<Rightarrow> bool" where
  "keeps_ids st st' \<longleftrightarrow>
     map s_idcounter (sessions st') = map s_idcounter (sessions st) \<and>
     map c_idcounter (log st') = map c_idcounter (log st) \<and>
     map e_idcounter (timeEntries st') =
       map e_idcounter (timeEntries st) @ [idCounter st..<idCounter st']"

definition same_entities :: "state \<Rightarrow> state \<Rightarrow> bool" where
  "same_entities st st' \<longleftrightarrow>
     sessions st' = sessions st \<and> timeEntries st' = timeEntries st \<and> log st' = log st \<and>
     idCounter st' = idCounter st"

definition charts_shrink :: "state \<Rightarrow> state \<Rightarrow> bool" where
  "charts_shrink st st' \<longleftrightarrow>
     (\<forall>d c'. chartItems st' d = Some c' \<longrightarrow>
        (\<exists>c. chartItems st d = Some c \<and> set (map r_id c') \<subseteq> set (map r_id c))) \<and>
     dom (chartItems st) \<subseteq> dom (chartItems st')"

section \<open>Concrete inputs\<close>

text \<open>
  One load response: two sessions and one commit on the first of March, one entry on
  that day and one on the second, a day without sessions. \<open>ex_loaded\<close> is the state
  after its load into the initial state; the local identities are 0 and 1 for the
  sessions, 2 and 3 for the entries and 4 for the commit.
\<close>

definition ex_issue :: issue where
  "ex_issue = \<lparr>key = ''ABC-1'', summary = ''Fix login'', i_project = Some 7,
     i_idcounter = None\<rparr>"

definition ex_project :: project where
  "ex_project = \<lparr>p_id = 7, p_name = ''Site'', p_client_name = ''ACME'',
     p_idcounter = None\<rparr>"

definition ex_raw_session1 :: "string session" where
  "ex_raw_session1 =
     \<lparr>s_start_time = ''2019-03-01T08:00:00'', s_end_time = ''2019-03-01T09:00:00'',
      s_date_group = ''2019-03-01'',
      s_extra_data = \<lparr>category = ''work'',
         windows = [\<lparr>w_time = 5, w_name = ''mail''\<rparr>, \<lparr>w_time = 120, w_name = ''editor''\<rparr>]\<rparr>,
      s_exported = None, s_idcounter = 0\<rparr>"

definition ex_raw_session2 :: "string session" where
  "ex_raw_session2 =
     \<lparr>s_start_time = ''2019-03-01T09:00:00'', s_end_time = ''2019-03-01T09:30:00'',
      s_date_group = ''2019-03-01'',
      s_extra_data = \<lparr>category = ''idle'', windows = []\<rparr>,
      s_exported = None, s_idcounter = 0\<rparr>"

definition ex_raw_entry1 :: "string entry" where
  "ex_raw_entry1 =
     \<lparr>e_id = 101, e_start_time = ''2019-03-01T10:00:00'', e_end_time = ''2019-03-01T11:00:00'',
      e_at = ''2019-03-01T11:00:05'', e_description = ''standup'', e_project = Some 7,
      e_date_group = ''2019-03-01'', e_idcounter = 0\<rparr>"

definition ex_raw_entry2 :: "string entry" where
  "ex_raw_entry2 =
     \<lparr>e_id = 102, e_start_time = ''2019-03-02T10:00:00'', e_end_time = ''2019-03-02T11:00:00'',
      e_at = ''2019-03-02T11:00:05'', e_description = ''review'', e_project = None,
      e_date_group = ''2019-03-02'', e_idcounter = 0\<rparr>"

definition ex_raw_commit :: "string commit" where
  "ex_raw_commit =
     \<lparr>c_time = ''2019-03-01T08:30:00'', c_message = ''fix login'', c_issue = Some ex_issue,
      c_date_group = ''2019-03-01'', c_idcounter = 0\<rparr>"

definition ex_data :: data where
  "ex_data =
     \<lparr>d_sessions = [ex_raw_session1, ex_raw_session2],
      d_time_entries = [ex_raw_entry1, ex_raw_entry2],
      d_log = [ex_raw_commit],
      d_projects = [ex_project],
      d_issues = [ex_issue]\<rparr>"

definition ex_loaded :: state where
  "ex_loaded = snd (getSessions_done ex_data init)"



definition ex_entry1 :: "date entry" where
  "ex_entry1 = (parseTimeEntry ex_raw_entry1)\<lparr>e_idcounter := 2\<rparr>"

text \<open>
  A response of the \<open>export\<close> request for the remote id 101 with a new description and
  span; a response of the \<open>split\<close> request for the same entry, split at 10:30; the
  values of the form controls.
\<close>

definition ex_response :: "string entry" where
  "ex_response =
     \<lparr>e_id = 101, e_start_time = ''2019-03-01T10:15:00'', e_end_time = ''2019-03-01T11:15:00'',
      e_at = ''2019-03-01T12:00:00'', e_description = ''daily standup'', e_project = Some 7,
      e_date_group = ''2019-03-01'', e_idcounter = 0\<rparr>"

definition ex_split :: split_response where
  "ex_split =
     \<lparr>entry1 = \<lparr>e_id = 101, e_start_time = ''2019-03-01T10:00:00'',
          e_end_time = ''2019-03-01T10:30:00'', e_at = ''2019-03-01T12:00:00'',
          e_description = ''standup'', e_project = Some 7, e_date_group = ''2019-03-01'',
          e_idcounter = 0\<rparr>,
      entry2 = \<lparr>e_id = 103, e_start_time = ''2019-03-01T10:30:00'',
          e_end_time = ''2019-03-01T11:00:00'', e_at = ''2019-03-01T12:00:00'',
          e_description = ''standup'', e_project = Some 7, e_date_group = ''2019-03-01'',
          e_idcounter = 0\<rparr>\<rparr>"

definition ex_form :: form where
  "ex_form = \<lparr>f_description = ''standup'', f_project = Some ''7'', f_start_time = ''10:00:00'',
     f_end_time = ''11:00:00'', f_split_time = ''10:30:00''\<rparr>"

text \<open>
  A load response in which two entries carry the remote id 101, the first of them on a day
  without sessions. Its load gives the session the local identity 0 and the entries 1
  and 2.
\<close>

definition ex_dup_data :: data where
  "ex_dup_data =
     \<lparr>d_sessions = [ex_raw_session1],
      d_time_entries = [ex_raw_entry2\<lparr>e_id := 101\<rparr>, ex_raw_entry1],
      d_log = [], d_projects = [], d_issues = []\<rparr>"


definition ex_selected_entry :: state where
  "ex_selected_entry = run [Loaded ex_data, Selected ''2019-03-01'' [2]] init"

definition ex_removed :: state where
  "ex_removed = run [Loaded ex_data, Removed ''2019-03-01'' 2, Deleted ''ok''] init"

definition ex_dup_selected :: state where
  "ex_dup_selected = run [Loaded ex_dup_data, Selected ''2019-03-01'' [2]] init"

section \<open>Properties\<close>

subsection \<open>The description handler\<close>

lemma description_change_match:
  "filter (\<lambda>issue. indexOf val (key issue) > - 1) (issues st) = i # rest \<Longrightarrow>
     description_change val st = (if truthy (i_project i) then Inr (i_project i) else Inr None)"
  by (cases "issues st") (auto simp: description_change_def)

lemma description_change_no_match:
  "issues st \<noteq> [] \<Longrightarrow>
   filter (\<lambda>issue. indexOf val (key issue) > - 1) (issues st) = [] \<Longrightarrow>
     description_change val st = Inl TypeError"
  by (simp add: description_change_def)

lemma description_change_no_issue:
  "issues st = [] \<Longrightarrow> description_change val st = Inr None"
  by (simp add: description_change_def)

text \<open>
  Claim C8. The text \<open>lunch\<close> contains no issue key. With one known issue the handler
  does not complete: its guard tests the length of \<open>issues\<close>, all known issues, and not of
  the matches, so it reads \<open>project\<close> of the first element of an empty array and throws.
\<close>

theorem description_change_no_match_throws:
  "filter (\<lambda>issue. indexOf ''lunch'' (key issue) > - 1) (issues (init\<lparr>issues := [ex_issue]\<rparr>)) = [] \<and>
   description_change ''lunch'' (init\<lparr>issues := [ex_issue]\<rparr>) = Inl TypeError"
  by (simp add: description_change_def ex_issue_def indexOf_def)

subsection \<open>\<open>makeRow\<close>\<close>

lemma insert_cmp_wcmp: "insert_cmp wcmp x ys = insort_key (\<lambda>w. - w_time w) x ys"
  by (induction ys) (auto simp: wcmp_def)

lemma sort_cmp_wcmp: "sort_cmp wcmp xs = sort_key (\<lambda>w. - w_time w) xs"
  by (induction xs) (simp_all add: sort_cmp_def insert_cmp_wcmp)

lemma sort_cmp_wcmp_idem: "sort_cmp wcmp (sort_cmp wcmp xs) = sort_cmp wcmp xs"
  by (simp add: sort_cmp_wcmp sort_key_id_if_sorted)

lemma sort_windows_idem: "sort_windows (sort_windows s) = sort_windows s"
  by (simp add: sort_windows_def sort_cmp_wcmp_idem)

lemma mset_sort_cmp_wcmp: "mset (sort_cmp wcmp xs) = mset xs"
  by (simp add: sort_cmp_wcmp)

lemma sorted_sort_cmp_wcmp: "sorted (rev (map w_time (sort_cmp wcmp xs)))"
proof -
  have "sorted (map (\<lambda>w. - w_time w) (sort_cmp wcmp xs))"
    by (simp add: sort_cmp_wcmp)
  then have "sorted_wrt (\<lambda>a b. w_time b \<le> w_time a) (sort_cmp wcmp xs)"
    by (simp add: sorted_map sorted_wrt_map)
  then show ?thesis
    by (simp add: sorted_wrt_rev sorted_map sorted_wrt_map rev_map[symmetric] del: rev_map)
qed

lemma makeRow_sorted_session: "fst (makeRow (Session (sort_windows s))) = fst (makeRow (Session s))"
  by (simp add: sort_windows_def sort_cmp_wcmp_idem)

text \<open>
  Claim C9, as the code has it. A second call on the object the first call left returns
  the same row and leaves the object as it is. An entry and a commit are not touched. A
  session keeps every field but the order of its window list, which the call sorts in
  place: the same samples, by descending duration.
\<close>

theorem makeRow_repeatable:
  "fst (makeRow (snd (makeRow obj))) = fst (makeRow obj) \<and>
   snd (makeRow (snd (makeRow obj))) = snd (makeRow obj) \<and>
   snd (makeRow (Entry e)) = Entry e \<and>
   snd (makeRow (Commit c)) = Commit c \<and>
   snd (makeRow (Session s)) =
     Session (s\<lparr>s_extra_data :=
       (s_extra_data s)\<lparr>windows := sort_cmp wcmp (windows (s_extra_data s))\<rparr>\<rparr>) \<and>
   mset (sort_cmp wcmp (windows (s_extra_data s))) = mset (windows (s_extra_data s)) \<and>
   sorted (rev (map w_time (sort_cmp wcmp (windows (s_extra_data s)))))"
  by (cases obj)
    (simp_all add: sort_windows_def sort_cmp_wcmp_idem mset_sort_cmp_wcmp sorted_sort_cmp_wcmp)

text \<open>
  Claim C9, as stated, fails: the call on a session whose samples are not in descending
  order of duration leaves the session with a reordered window list.
\<close>

theorem makeRow_reorders_windows:
  "snd (makeRow (Session ((parseSession ex_raw_session1)\<lparr>s_idcounter := 0\<rparr>))) \<noteq>
     Session ((parseSession ex_raw_session1)\<lparr>s_idcounter := 0\<rparr>)"
  by (simp add: ex_raw_session1_def parseSession_def sort_windows_def sort_cmp_def wcmp_def)

subsection \<open>What a load leaves untouched\<close>

lemma drawDayChart_frame:
  "drawDayChart ds de dl st = (err, st') \<Longrightarrow>
     sessions st' = sessions st \<and> timeEntries st' = timeEntries st \<and>
     idCounter st' = idCounter st \<and> log st' = log st \<and> projects st' = projects st \<and>
     issues st' = issues st \<and> global_selected st' = global_selected st \<and>
     global_selected_last st' = global_selected_last st"
  by (auto simp: drawDayChart_def split: sum.splits list.splits)

lemma drawDayCharts_frame:
  "drawDayCharts dgs st = (err, st') \<Longrightarrow>
     timeEntries st' = timeEntries st \<and> idCounter st' = idCounter st \<and>
     log st' = log st \<and> projects st' = projects st \<and> issues st' = issues st \<and>
     global_selected st' = global_selected st \<and>
     global_selected_last st' = global_selected_last st"
proof (induction dgs arbitrary: st)
  case Nil
  then show ?case by simp
next
  case (Cons dg rest)
  obtain e1 st1 where d:
    "drawDayChart
       (filter (\<lambda>s. s_date_group s = dg) (sessions st))
       (filter (\<lambda>s. e_date_group s = dg) (timeEntries st))
       (filter (\<lambda>s. c_date_group s = dg) (log st))
       (sort_day_sessions dg st) = (e1, st1)"
    by (cases "drawDayChart
       (filter (\<lambda>s. s_date_group s = dg) (sessions st))
       (filter (\<lambda>s. e_date_group s = dg) (timeEntries st))
       (filter (\<lambda>s. c_date_group s = dg) (log st))
       (sort_day_sessions dg st)")
  from drawDayChart_frame[OF d]
  have f1: "timeEntries st1 = timeEntries st \<and> idCounter st1 = idCounter st \<and>
     log st1 = log st \<and> projects st1 = projects st \<and> issues st1 = issues st \<and>
     global_selected st1 = global_selected st \<and>
     global_selected_last st1 = global_selected_last st"
    by (simp add: sort_day_sessions_def)
  show ?case
  proof (cases e1)
    case None
    with Cons.prems d have "drawDayCharts rest st1 = (err, st')" by simp
    from Cons.IH[OF this] f1 show ?thesis by simp
  next
    case (Some a)
    with Cons.prems d have "st' = st1" by simp
    with f1 show ?thesis by simp
  qed
qed

lemma load_sessions_frame:
  "timeEntries (load_sessions rs st) = timeEntries st \<and> log (load_sessions rs st) = log st \<and>
   projects (load_sessions rs st) = projects st \<and> issues (load_sessions rs st) = issues st \<and>
   chartItems (load_sessions rs st) = chartItems st \<and>
   global_selected (load_sessions rs st) = global_selected st \<and>
   global_selected_last (load_sessions rs st) = global_selected_last st"
  by (induction rs arbitrary: st) simp_all

lemma load_timeEntries_frame:
  "sessions (load_timeEntries rs st) = sessions st \<and> log (load_timeEntries rs st) = log st \<and>
   projects (load_timeEntries rs st) = projects st \<and>
   issues (load_timeEntries rs st) = issues st \<and>
   chartItems (load_timeEntries rs st) = chartItems st \<and>
   global_selected (load_timeEntries rs st) = global_selected st \<and>
   global_selected_last (load_timeEntries rs st) = global_selected_last st"
  by (induction rs arbitrary: st) simp_all

lemma load_log_frame:
  "sessions (load_log rs st) = sessions st \<and> timeEntries (load_log rs st) = timeEntries st \<and>
   projects (load_log rs st) = projects st \<and> issues (load_log rs st) = issues st \<and>
   chartItems (load_log rs st) = chartItems st \<and>
   global_selected (load_log rs st) = global_selected st \<and>
   global_selected_last (load_log rs st) = global_selected_last st"
  by (induction rs arbitrary: st) simp_all

lemma getSessions_done_issues:
  "issues (snd (getSessions_done dat st)) = issues st @ d_issues dat"
proof -
  obtain err st' where r: "getSessions_done dat st = (err, st')"
    by (cases "getSessions_done dat st")
  then show ?thesis
    unfolding getSessions_done_def updateTable_def Let_def
    by (auto dest!: drawDayCharts_frame
        simp: load_sessions_frame load_timeEntries_frame load_log_frame)
qed

lemma getSessions_done_projects:
  "projects (snd (getSessions_done dat st)) = d_projects dat"
proof -
  obtain err st' where r: "getSessions_done dat st = (err, st')"
    by (cases "getSessions_done dat st")
  then show ?thesis
    unfolding getSessions_done_def updateTable_def Let_def
    by (auto dest!: drawDayCharts_frame
        simp: load_sessions_frame load_timeEntries_frame load_log_frame)
qed

text \<open>
  Claim C7. The callback empties \<open>sessions\<close>, \<open>timeEntries\<close>, \<open>log\<close>, \<open>projects\<close> and
  \<open>chartItems\<close>, and not \<open>issues\<close>: when the same response is loaded a second time the
  project is held once and the issue twice.
\<close>

theorem load_keeps_old_issues:
  "issues (snd (getSessions_done ex_data (snd (getSessions_done ex_data init)))) =
     [ex_issue, ex_issue] \<and>
   projects (snd (getSessions_done ex_data (snd (getSessions_done ex_data init)))) =
     [ex_project]"
  by (simp add: getSessions_done_issues getSessions_done_projects ex_data_def init_def)

subsection \<open>\<open>refreshEntry\<close>\<close>

lemma refresh_fields_simps [simp]:
  "e_id (refresh_fields n e) = e_id e"
  "e_date_group (refresh_fields n e) = e_date_group e"
  "e_idcounter (refresh_fields n e) = e_idcounter e"
  "e_description (refresh_fields n e) = e_description n"
  "e_start_time (refresh_fields n e) = parseTime (e_start_time n)"
  "e_end_time (refresh_fields n e) = parseTime (e_end_time n)"
  by (simp_all add: refresh_fields_def)

lemma refresh_loop_nomatch:
  "\<forall>e\<in>set es. e_id e \<noteq> e_id n \<Longrightarrow> refresh_loop n es ch = (None, es, ch)"
  by (induction es) simp_all

lemma refresh_loop_append:
  "\<forall>e\<in>set pre. e_id e \<noteq> e_id n \<Longrightarrow>
     refresh_loop n (pre @ ys) ch =
       (case refresh_loop n ys ch of (err, ys', ch') \<Rightarrow> (err, pre @ ys', ch'))"
  by (induction pre) (simp_all split: prod.splits)

lemma refresh_loop_entries:
  "\<forall>e\<in>set es. e_id e = e_id n \<longrightarrow> ch (e_date_group e) \<noteq> None \<Longrightarrow>
     \<exists>ch'. refresh_loop n es ch =
        (None, map (\<lambda>e. if e_id e = e_id n then refresh_fields n e else e) es, ch') \<and>
        dom ch' = dom ch"
proof (induction es arbitrary: ch)
  case Nil
  then show ?case by simp
next
  case (Cons e es)
  show ?case
  proof (cases "e_id e = e_id n")
    case True
    with Cons.prems obtain c where c: "ch (e_date_group e) = Some c" by auto
    let ?ch1 = "ch(e_date_group e \<mapsto> ds_update c (refresh_payload (refresh_fields n e)))"
    have "\<forall>x\<in>set es. e_id x = e_id n \<longrightarrow> ?ch1 (e_date_group x) \<noteq> None"
      using Cons.prems by auto
    from Cons.IH[OF this] obtain ch' where
      "refresh_loop n es ?ch1 = (None, map (\<lambda>e. if e_id e = e_id n then refresh_fields n e else e) es, ch')"
      "dom ch' = dom ?ch1" by blast
    with True c show ?thesis by (auto simp: Let_def)
  next
    case False
    from Cons.prems have "\<forall>x\<in>set es. e_id x = e_id n \<longrightarrow> ch (e_date_group x) \<noteq> None" by auto
    from Cons.IH[OF this] False show ?thesis by auto
  qed
qed

lemma shows_response_payload: "shows_response n (refresh_payload (refresh_fields n e))"
  by (simp add: shows_response_def refresh_payload_def)

lemma ds_update_present:
  "r_id upd \<in> set (map r_id c) \<Longrightarrow>
     ds_update c upd = map (\<lambda>item. if r_id item = r_id upd then merge_row upd item else item) c"
  by (simp add: ds_update_def)

lemma ds_update_absent: "r_id upd \<notin> set (map r_id c) \<Longrightarrow> ds_update c upd = c @ [upd]"
  by (simp add: ds_update_def)

lemma refresh_payload_id [simp]: "r_id (refresh_payload e) = e_idcounter e"
  by (simp add: refresh_payload_def)

lemma merge_row_id [simp]: "r_id (merge_row upd item) = r_id item"
  by (simp add: merge_row_def)

lemma shows_response_merge:
  "shows_response n (merge_row (refresh_payload (refresh_fields n e)) r)"
  by (simp add: shows_response_def merge_row_def refresh_payload_def or_else_def)

lemma ds_update_keeps:
  assumes "r \<in> set c" "shows_response n r"
  shows "\<exists>r'\<in>set (ds_update c (refresh_payload (refresh_fields n e))).
           r_id r' = r_id r \<and> shows_response n r'"
proof -
  let ?p = "refresh_payload (refresh_fields n e)"
  from assms(1) have pres: "r_id r = r_id ?p \<Longrightarrow> r_id ?p \<in> set (map r_id c)" by force
  show ?thesis
  proof (cases "r_id r = r_id ?p")
    case True
    from ds_update_present[OF pres[OF True]] assms(1) True
    have "merge_row ?p r \<in> set (ds_update c ?p)" by force
    then show ?thesis
      by (intro bexI[where x="merge_row ?p r"]) (simp_all add: shows_response_merge)
  next
    case False
    have "r \<in> set (ds_update c ?p)"
    proof (cases "r_id ?p \<in> set (map r_id c)")
      case True
      from ds_update_present[OF True] assms(1) False show ?thesis by force
    next
      case False
      from ds_update_absent[OF False] assms(1) show ?thesis by simp
    qed
    with assms(2) show ?thesis by blast
  qed
qed

lemma ds_update_has:
  "\<exists>r'\<in>set (ds_update c (refresh_payload (refresh_fields n e))).
      r_id r' = e_idcounter e \<and> shows_response n r'"
proof -
  let ?p = "refresh_payload (refresh_fields n e)"
  show ?thesis
  proof (cases "r_id ?p \<in> set (map r_id c)")
    case True
    then obtain r where r: "r \<in> set c" "r_id r = r_id ?p" by auto
    with ds_update_present[OF True] have "merge_row ?p r \<in> set (ds_update c ?p)" by force
    then show ?thesis using r(2)
      by (intro bexI[where x="merge_row ?p r"]) (simp_all add: shows_response_merge)
  next
    case False
    from ds_update_absent[OF False] have "?p \<in> set (ds_update c ?p)" by simp
    then show ?thesis
      by (intro bexI[where x="?p"]) (simp_all add: shows_response_payload)
  qed
qed

lemma has_shown_update:
  "has_shown n ch d i \<Longrightarrow> ch d' = Some c \<Longrightarrow>
     has_shown n (ch(d' \<mapsto> ds_update c (refresh_payload (refresh_fields n e)))) d i"
  unfolding has_shown_def list_ex_iff using ds_update_keeps[of _ c n e]
  by (cases "d = d'") (auto split: option.splits)

lemma has_shown_new:
  "ch d = Some c \<Longrightarrow>
     has_shown n (ch(d \<mapsto> ds_update c (refresh_payload (refresh_fields n e)))) d (e_idcounter e)"
  unfolding has_shown_def list_ex_iff using ds_update_has[of c n e] by auto

lemma refresh_loop_rows:
  assumes "\<forall>e\<in>set es. e_id e = e_id n \<longrightarrow> ch (e_date_group e) \<noteq> None"
    and "refresh_loop n es ch = (err, es', ch')"
  shows "(\<forall>d i. has_shown n ch d i \<longrightarrow> has_shown n ch' d i) \<and>
         (\<forall>e\<in>set es. e_id e = e_id n \<longrightarrow> has_shown n ch' (e_date_group e) (e_idcounter e))"
  using assms
proof (induction es arbitrary: ch es' err ch')
  case Nil
  then show ?case by simp
next
  case (Cons e es)
  show ?case
  proof (cases "e_id e = e_id n")
    case True
    with Cons.prems obtain c where c: "ch (e_date_group e) = Some c" by auto
    let ?ch1 = "ch(e_date_group e \<mapsto> ds_update c (refresh_payload (refresh_fields n e)))"
    have h: "\<forall>x\<in>set es. e_id x = e_id n \<longrightarrow> ?ch1 (e_date_group x) \<noteq> None"
      using Cons.prems by auto
    obtain err1 es1 ch1' where r: "refresh_loop n es ?ch1 = (err1, es1, ch1')"
      by (cases "refresh_loop n es ?ch1")
    with True c Cons.prems(2) have eq: "ch' = ch1'" by (simp add: Let_def)
    from Cons.IH[OF h r] have ih:
      "(\<forall>d i. has_shown n ?ch1 d i \<longrightarrow> has_shown n ch1' d i)"
      "(\<forall>e\<in>set es. e_id e = e_id n \<longrightarrow> has_shown n ch1' (e_date_group e) (e_idcounter e))" by blast+
    have a: "\<forall>d i. has_shown n ch d i \<longrightarrow> has_shown n ch' d i"
      using ih(1) has_shown_update[of n ch _ _ "e_date_group e" c e] c eq by blast
    have b: "has_shown n ch' (e_date_group e) (e_idcounter e)"
      using ih(1) has_shown_new[of ch "e_date_group e" c n e] c eq by blast
    from a b ih(2) eq show ?thesis by simp
  next
    case False
    from Cons.prems have h: "\<forall>x\<in>set es. e_id x = e_id n \<longrightarrow> ch (e_date_group x) \<noteq> None" by auto
    obtain err1 es1 ch1' where r: "refresh_loop n es ch = (err1, es1, ch1')"
      by (cases "refresh_loop n es ch")
    with False Cons.prems(2) have eq: "ch' = ch1'" by simp
    from Cons.IH[OF h r] False eq show ?thesis by simp
  qed
qed

text \<open>
  Claim C10, as the code has it. When the date group of every entry with the response's
  \<open>id\<close> has a row collection, \<open>refreshEntry\<close> does not throw, overwrites the three fields
  of every such entry and of no other, and the collection of each such entry's day then
  holds a row with the entry's local identity that carries the response's description and
  span. When no entry has the response's \<open>id\<close>, the state is left as it was.
\<close>

theorem refreshEntry_all_matches:
  assumes "\<forall>e\<in>set (timeEntries st). e_id e = e_id newEntry \<longrightarrow> chartItems st (e_date_group e) \<noteq> None"
  shows "fst (refreshEntry newEntry st) = None \<and>
         timeEntries (snd (refreshEntry newEntry st)) =
           map (\<lambda>e. if e_id e = e_id newEntry then refresh_fields newEntry e else e) (timeEntries st) \<and>
         (\<forall>e\<in>set (timeEntries st). e_id e = e_id newEntry \<longrightarrow>
            has_shown newEntry (chartItems (snd (refreshEntry newEntry st))) (e_date_group e) (e_idcounter e)) \<and>
         ((\<forall>e\<in>set (timeEntries st). e_id e \<noteq> e_id newEntry) \<longrightarrow> refreshEntry newEntry st = (None, st))"
proof -
  from refresh_loop_entries[OF assms] obtain ch' where
    l: "refresh_loop newEntry (timeEntries st) (chartItems st) =
        (None, map (\<lambda>e. if e_id e = e_id newEntry then refresh_fields newEntry e else e) (timeEntries st), ch')"
    by blast
  from refresh_loop_rows[OF assms l]
  have rows: "\<forall>e\<in>set (timeEntries st). e_id e = e_id newEntry \<longrightarrow>
      has_shown newEntry ch' (e_date_group e) (e_idcounter e)" by blast
  have nomatch: "(\<forall>e\<in>set (timeEntries st). e_id e \<noteq> e_id newEntry) \<longrightarrow> refreshEntry newEntry st = (None, st)"
    by (simp add: refreshEntry_def refresh_loop_nomatch)
  from l rows nomatch show ?thesis by (simp add: refreshEntry_def)
qed

lemma merge_refresh_payload:
  "merge_row (refresh_payload (refresh_fields n e)) item = refreshed_row n item"
  by (simp add: merge_row_def refresh_payload_def refreshed_row_def or_else_def)

lemma refresh_loop_single:
  assumes "\<forall>e\<in>set pre. e_id e \<noteq> e_id n" "\<forall>e\<in>set post. e_id e \<noteq> e_id n"
    "e_id E = e_id n" "ch (e_date_group E) = Some c"
  shows "refresh_loop n (pre @ E # post) ch =
     (None, pre @ refresh_fields n E # post,
      ch(e_date_group E \<mapsto> ds_update c (refresh_payload (refresh_fields n E))))"
  using assms by (simp add: refresh_loop_append refresh_loop_nomatch Let_def)

lemma filter_single_split:
  assumes "filter P xs = [x]"
  shows "\<exists>pre post. xs = pre @ x # post \<and> (\<forall>u\<in>set pre. \<not> P u) \<and> P x \<and> (\<forall>v\<in>set post. \<not> P v)"
proof -
  from assms obtain us vs where "xs = us @ x # vs" "\<forall>u\<in>set us. \<not> P u" "P x" "[] = filter P vs"
    unfolding filter_eq_Cons_iff by blast
  moreover from this(4) have "\<forall>v\<in>set vs. \<not> P v" by (metis filter_empty_conv)
  ultimately show ?thesis by blast
qed

text \<open>
  Claim C5, as the code has it. Let \<open>E\<close> be the one entry of the store that carries the
  remote id of the response, and let \<open>E\<close>'s row be in the collection of \<open>E\<close>'s day. Then
  \<open>refreshEntry\<close> overwrites start, end and description of \<open>E\<close>, and start, end, title and
  content of the row whose id is \<open>E\<close>'s local identity; the row's id, group, class, type and
  editability, every other row of that collection, every other collection and every other
  global stay as they are.
\<close>

theorem refreshEntry_only_that_row:
  assumes "filter (\<lambda>e. e_id e = e_id newEntry) (timeEntries st) = [E]"
    "chartItems st (e_date_group E) = Some c" "e_idcounter E \<in> set (map r_id c)"
  shows "refreshEntry newEntry st =
     (None, st\<lparr>timeEntries :=
                 map (\<lambda>e. if e_id e = e_id E then refresh_fields newEntry e else e) (timeEntries st),
               chartItems := (chartItems st)(e_date_group E \<mapsto>
                 map (\<lambda>item. if r_id item = e_idcounter E then refreshed_row newEntry item else item) c)\<rparr>)"
proof -
  from filter_single_split[OF assms(1)] obtain pre post where
    sp: "timeEntries st = pre @ E # post" and
    nm: "\<forall>e\<in>set pre. e_id e \<noteq> e_id newEntry" "\<forall>e\<in>set post. e_id e \<noteq> e_id newEntry" and
    eq: "e_id E = e_id newEntry"
    by blast
  have m: "map (\<lambda>e. if e_id e = e_id E then refresh_fields newEntry e else e) (pre @ E # post) =
           pre @ refresh_fields newEntry E # post"
    using nm eq by (auto intro: map_idI)
  have u: "ds_update c (refresh_payload (refresh_fields newEntry E)) =
           map (\<lambda>item. if r_id item = e_idcounter E then refreshed_row newEntry item else item) c"
    using assms(3) by (simp add: ds_update_present merge_refresh_payload)
  have "refresh_loop newEntry (pre @ E # post) (chartItems st) =
     (None, pre @ refresh_fields newEntry E # post,
      (chartItems st)(e_date_group E \<mapsto> ds_update c (refresh_payload (refresh_fields newEntry E))))"
    by (rule refresh_loop_single[of pre newEntry post E "chartItems st" c,
          OF nm(1) nm(2) eq assms(2)])
  with sp m u show ?thesis by (simp add: refreshEntry_def)
qed

text \<open>
  Claim C10, as stated, fails. Two entries carry the remote id 101, the first on a day
  without sessions, so without a row collection. The loop overwrites the first entry,
  throws at its \<open>c.update\<close> and never reaches the second, which keeps its description.
\<close>

theorem refreshEntry_stops_counterexample:
  "map e_id (timeEntries (snd (getSessions_done ex_dup_data init))) = [101, 101] \<and>
   fst (refreshEntry ex_response (snd (getSessions_done ex_dup_data init))) = Some TypeError \<and>
   map e_description (timeEntries (snd (refreshEntry ex_response (snd (getSessions_done ex_dup_data init))))) =
     [''daily standup'', ''standup'']"
  by code_simp

text \<open>
  The hypothesis of C10 at the loaded example: a response for the remote id 101, and one
  for an id that no entry has.
\<close>

theorem refreshEntry_all_matches_witness:
  "map e_id (timeEntries ex_loaded) = [101, 102] \<and>
   fst (refreshEntry ex_response ex_loaded) = None \<and>
   map e_description (timeEntries (snd (refreshEntry ex_response ex_loaded))) =
     [''daily standup'', ''review''] \<and>
   has_shown ex_response (chartItems (snd (refreshEntry ex_response ex_loaded))) ''2019-03-01'' 2 \<and>
   refreshEntry (ex_response\<lparr>e_id := 999\<rparr>) ex_loaded = (None, ex_loaded)"
proof -
  have h1: "\<forall>e\<in>set (timeEntries ex_loaded).
      e_id e = e_id ex_response \<longrightarrow> chartItems ex_loaded (e_date_group e) \<noteq> None"
    by code_simp
  have h2: "\<forall>e\<in>set (timeEntries ex_loaded).
      e_id e = e_id (ex_response\<lparr>e_id := 999\<rparr>) \<longrightarrow> chartItems ex_loaded (e_date_group e) \<noteq> None"
    by code_simp
  have h3: "\<forall>e\<in>set (timeEntries ex_loaded). e_id e \<noteq> e_id (ex_response\<lparr>e_id := 999\<rparr>)"
    by code_simp
  have e: "map e_id (timeEntries ex_loaded) = [101, 102]"
    by code_simp
  have m: "map e_description
      (map (\<lambda>e. if e_id e = e_id ex_response then refresh_fields ex_response e else e)
         (timeEntries ex_loaded)) = [''daily standup'', ''review'']"
    by code_simp
  define E where "E = (parseTimeEntry ex_raw_entry1)\<lparr>e_idcounter := 2\<rparr>"
  have g: "E \<in> set (timeEntries ex_loaded)" unfolding E_def by code_simp
  have gi: "e_id E = e_id ex_response" unfolding E_def by code_simp
  have gd: "e_date_group E = ''2019-03-01''" unfolding E_def by code_simp
  have gc: "e_idcounter E = 2" unfolding E_def by code_simp
  from refreshEntry_all_matches[OF h1] g gi
  have "has_shown ex_response (chartItems (snd (refreshEntry ex_response ex_loaded)))
     (e_date_group E) (e_idcounter E)"
    by blast
  then have s: "has_shown ex_response (chartItems (snd (refreshEntry ex_response ex_loaded)))
     ''2019-03-01'' 2"
    by (simp only: gd gc)
  from refreshEntry_all_matches[OF h1]
  have c1: "fst (refreshEntry ex_response ex_loaded) = None" by blast
  from refreshEntry_all_matches[OF h1]
  have "timeEntries (snd (refreshEntry ex_response ex_loaded)) =
     map (\<lambda>e. if e_id e = e_id ex_response then refresh_fields ex_response e else e)
       (timeEntries ex_loaded)" by blast
  with m have c2: "map e_description (timeEntries (snd (refreshEntry ex_response ex_loaded))) =
     [''daily standup'', ''review'']" by (simp only:)
  from refreshEntry_all_matches[OF h2] h3
  have c4: "refreshEntry (ex_response\<lparr>e_id := 999\<rparr>) ex_loaded = (None, ex_loaded)" by blast
  from e c1 c2 s c4 show ?thesis by blast
qed

text \<open>
  Claim C5, as stated, fails for the content of the row: an update response with a new
  description replaces the content of the entry's row.
\<close>

theorem refreshEntry_changes_content:
  "map r_content (rows_of ex_loaded ''2019-03-01'') =
     [Some '''', Some '''', Some ''standup'', Some ''''] \<and>
   map r_content (rows_of (snd (refreshEntry ex_response ex_loaded)) ''2019-03-01'') =
     [Some '''', Some '''', Some ''daily standup'', Some '''']"
  by code_simp

text \<open>
  The hypotheses of C5 at the loaded example, for the entry with remote id 101 and local
  identity 2.
\<close>

theorem refreshEntry_only_that_row_witness:
  "filter (\<lambda>e. e_id e = e_id ex_response) (timeEntries ex_loaded) = [ex_entry1] \<and>
   map e_id (timeEntries ex_loaded) = [101, 102] \<and>
   map r_id (rows_of ex_loaded ''2019-03-01'') = [0, 1, 2, 4] \<and>
   refreshEntry ex_response ex_loaded =
     (None, ex_loaded\<lparr>timeEntries :=
                 map (\<lambda>e. if e_id e = 101 then refresh_fields ex_response e else e)
                   (timeEntries ex_loaded),
               chartItems := (chartItems ex_loaded)(''2019-03-01'' \<mapsto>
                 map (\<lambda>item. if r_id item = 2 then refreshed_row ex_response item else item)
                   (rows_of ex_loaded ''2019-03-01''))\<rparr>)"
proof -
  have f: "filter (\<lambda>e. e_id e = e_id ex_response) (timeEntries ex_loaded) = [ex_entry1]"
    by code_simp
  have gj: "e_id ex_entry1 = 101" by code_simp
  have gd: "e_date_group ex_entry1 = ''2019-03-01''" by code_simp
  have gc: "e_idcounter ex_entry1 = 2" by code_simp
  have ids: "map e_id (timeEntries ex_loaded) = [101, 102]" by code_simp
  have c: "chartItems ex_loaded (e_date_group ex_entry1) = Some (rows_of ex_loaded ''2019-03-01'')"
    by code_simp
  have r: "map r_id (rows_of ex_loaded ''2019-03-01'') = [0, 1, 2, 4]" by code_simp
  then have i: "e_idcounter ex_entry1 \<in> set (map r_id (rows_of ex_loaded ''2019-03-01''))"
    by (simp only: gc) simp
  from refreshEntry_only_that_row[OF f c i] f ids r show ?thesis
    by (simp only: gj gd gc)
qed

subsection \<open>The load in closed form\<close>

lemma upt_shift: "[n..<n + Suc k] = n # [Suc n..<Suc n + k]"
  by (simp add: upt_conv_Cons del: upt_Suc)

lemma loaded_sessions_Cons:
  "loaded_sessions n (r # rs) = (parseSession r)\<lparr>s_idcounter := n\<rparr> # loaded_sessions (Suc n) rs"
  by (simp add: loaded_sessions_def upt_conv_Cons del: upt_Suc)

lemma loaded_entries_Cons:
  "loaded_entries n (r # rs) = (parseTimeEntry r)\<lparr>e_idcounter := n\<rparr> # loaded_entries (Suc n) rs"
  by (simp add: loaded_entries_def upt_conv_Cons del: upt_Suc)

lemma loaded_log_Cons:
  "loaded_log n (r # rs) = (parseCommit r)\<lparr>c_idcounter := n\<rparr> # loaded_log (Suc n) rs"
  by (simp add: loaded_log_def upt_conv_Cons del: upt_Suc)

lemma loaded_Nil [simp]: "loaded_sessions n [] = []" "loaded_entries n [] = []" "loaded_log n [] = []"
  by (simp_all add: loaded_sessions_def loaded_entries_def loaded_log_def)

lemma load_sessions_eq:
  "load_sessions rs st =
     st\<lparr>sessions := sessions st @ loaded_sessions (idCounter st) rs,
        idCounter := idCounter st + length rs\<rparr>"
  by (induction rs arbitrary: st) (simp_all add: loaded_sessions_Cons)

lemma load_timeEntries_eq:
  "load_timeEntries rs st =
     st\<lparr>timeEntries := timeEntries st @ loaded_entries (idCounter st) rs,
        idCounter := idCounter st + length rs\<rparr>"
  by (induction rs arbitrary: st) (simp_all add: loaded_entries_Cons)

lemma load_log_eq:
  "load_log rs st =
     st\<lparr>log := log st @ loaded_log (idCounter st) rs,
        idCounter := idCounter st + length rs\<rparr>"
  by (induction rs arbitrary: st) (simp_all add: loaded_log_Cons)

lemma ids_loaded_sessions [simp]: "map s_idcounter (loaded_sessions n rs) = [n..<n + length rs]"
  by (simp add: loaded_sessions_def comp_def case_prod_beta map_snd_zip[unfolded comp_def])

lemma ids_loaded_entries [simp]: "map e_idcounter (loaded_entries n rs) = [n..<n + length rs]"
  by (simp add: loaded_entries_def comp_def case_prod_beta map_snd_zip[unfolded comp_def])

lemma ids_loaded_log [simp]: "map c_idcounter (loaded_log n rs) = [n..<n + length rs]"
  by (simp add: loaded_log_def comp_def case_prod_beta map_snd_zip[unfolded comp_def])

lemma length_loaded [simp]:
  "length (loaded_sessions n rs) = length rs"
  "length (loaded_entries n es) = length es"
  "length (loaded_log n cs) = length cs"
  by (simp_all add: loaded_sessions_def loaded_entries_def loaded_log_def)

lemma set_foldl_set_add: "set (foldl set_add acc xs) = set acc \<union> set xs"
  by (induction xs arbitrary: acc) (auto simp: set_add_def)

lemma distinct_foldl_set_add: "distinct acc \<Longrightarrow> distinct (foldl set_add acc xs)"
  by (induction xs arbitrary: acc) (auto simp: set_add_def)

lemma set_dateGroups_of: "set (dateGroups_of ss) = s_date_group ` set ss"
  by (simp add: dateGroups_of_def set_foldl_set_add)

lemma distinct_dateGroups_of: "distinct (dateGroups_of ss)"
  by (simp add: dateGroups_of_def distinct_foldl_set_add)

lemma makeRow_ids [simp]:
  "r_id (fst (makeRow (Session s))) = s_idcounter s"
  "r_id (fst (makeRow (Entry e))) = e_idcounter e"
  "r_id (fst (makeRow (Commit c))) = c_idcounter c"
  by simp_all

lemma ids_group_rows:
  "map r_id (group_rows st d) =
     map s_idcounter (filter (\<lambda>s. s_date_group s = d) (sessions st)) @
     map e_idcounter (filter (\<lambda>s. e_date_group s = d) (timeEntries st)) @
     map c_idcounter (filter (\<lambda>s. c_date_group s = d) (log st))"
  by (simp add: group_rows_def day_rows_def comp_def)

lemma disjoint_subsets:
  assumes "A \<inter> B = {}" "A' \<subseteq> A" "B' \<subseteq> B"
  shows "A' \<inter> B' = {}"
  using assms by blast

lemma distinct_filter3:
  assumes "distinct (map f xs @ map g ys @ map h zs)"
  shows "distinct (map f (filter P xs) @ map g (filter Q ys) @ map h (filter R zs))"
proof -
  from assms have a: "distinct (map f xs)" "distinct (map g ys)" "distinct (map h zs)"
    by simp_all
  from assms have ab: "f ` set xs \<inter> g ` set ys = {}" and ac: "f ` set xs \<inter> h ` set zs = {}"
    and bc: "g ` set ys \<inter> h ` set zs = {}"
    by (simp_all add: Int_Un_distrib)
  have s1: "f ` set (filter P xs) \<subseteq> f ` set xs" by auto
  have s2: "g ` set (filter Q ys) \<subseteq> g ` set ys" by auto
  have s3: "h ` set (filter R zs) \<subseteq> h ` set zs" by auto
  have i1: "f ` set (filter P xs) \<inter> g ` set (filter Q ys) = {}" by (rule disjoint_subsets[OF ab s1 s2])
  have i2: "f ` set (filter P xs) \<inter> h ` set (filter R zs) = {}" by (rule disjoint_subsets[OF ac s1 s3])
  have i3: "g ` set (filter Q ys) \<inter> h ` set (filter R zs) = {}" by (rule disjoint_subsets[OF bc s2 s3])
  have d: "distinct (map f (filter P xs))" "distinct (map g (filter Q ys))" "distinct (map h (filter R zs))"
    using a by (simp_all add: distinct_map_filter)
  have "set (map f (filter P xs)) \<inter> set (map g (filter Q ys) @ map h (filter R zs)) = {}"
    unfolding set_append set_map Int_Un_distrib using i1 i2 by (simp only: Un_empty)
  moreover have "set (map g (filter Q ys)) \<inter> set (map h (filter R zs)) = {}"
    unfolding set_map using i3 .
  ultimately show ?thesis
    unfolding distinct_append using d by blast
qed

lemma distinct_ids_group_rows:
  "distinct (all_ids st) \<Longrightarrow> distinct (map r_id (group_rows st d))"
  unfolding ids_group_rows all_ids_def by (rule distinct_filter3)

lemma sort_windows_simps [simp]:
  "s_date_group (sort_windows s) = s_date_group s"
  "s_idcounter (sort_windows s) = s_idcounter s"
  "s_start_time (sort_windows s) = s_start_time s"
  "s_end_time (sort_windows s) = s_end_time s"
  "s_exported (sort_windows s) = s_exported s"
  by (simp_all add: sort_windows_def)

lemma filter_sorted_other:
  "d \<noteq> d0 \<Longrightarrow>
     filter (\<lambda>s. s_date_group s = d) (map (\<lambda>s. if s_date_group s = d0 then sort_windows s else s) ss) =
     filter (\<lambda>s. s_date_group s = d) ss"
  by (induction ss) auto

lemma group_rows_sort_day:
  "d \<noteq> d0 \<Longrightarrow> group_rows (sort_day_sessions d0 st\<lparr>chartItems := ch\<rparr>) d = group_rows st d"
  by (simp add: group_rows_def sort_day_sessions_def filter_sorted_other)

lemma all_ids_sort_day [simp]:
  "all_ids (sort_day_sessions d0 st\<lparr>chartItems := ch\<rparr>) = all_ids st"
  by (simp add: all_ids_def sort_day_sessions_def comp_def)

lemma map_date_group_sorted:
  "map s_date_group (map (\<lambda>s. if P s then sort_windows s else s) ss) = map s_date_group ss"
  by (induction ss) simp_all

lemma sessions_sort_day:
  "sessions (sort_day_sessions d0 st) =
     map (\<lambda>s. if s_date_group s = d0 then sort_windows s else s) (sessions st)"
  by (simp add: sort_day_sessions_def)

lemma date_groups_sort_day [simp]:
  "s_date_group ` set (sessions (sort_day_sessions d0 st)) = s_date_group ` set (sessions st)"
proof -
  have "map s_date_group (sessions (sort_day_sessions d0 st)) = map s_date_group (sessions st)"
    unfolding sessions_sort_day by (rule map_date_group_sorted)
  then have "set (map s_date_group (sessions (sort_day_sessions d0 st))) =
             set (map s_date_group (sessions st))"
    by (simp only:)
  then show ?thesis unfolding set_map .
qed

lemma drawDayChart_group:
  assumes "distinct (all_ids st)" "d \<in> s_date_group ` set (sessions st)"
  shows "drawDayChart
       (filter (\<lambda>s. s_date_group s = d) (sessions st))
       (filter (\<lambda>s. e_date_group s = d) (timeEntries st))
       (filter (\<lambda>s. c_date_group s = d) (log st))
       (sort_day_sessions d st) =
     (None, sort_day_sessions d st\<lparr>chartItems := (chartItems st)(d \<mapsto> group_rows st d)\<rparr>)"
proof -
  from assms(2) obtain s rest where f: "filter (\<lambda>s. s_date_group s = d) (sessions st) = s # rest"
    by (cases "filter (\<lambda>s. s_date_group s = d) (sessions st)") (auto simp: filter_empty_conv)
  then have "s \<in> set (filter (\<lambda>s. s_date_group s = d) (sessions st))" by simp
  then have sd: "s_date_group s = d" by simp
  have n: "new_DataSet (group_rows st d) = Inr (group_rows st d)"
    using distinct_ids_group_rows[OF assms(1)] by (simp add: new_DataSet_def)
  show ?thesis
    using n f sd unfolding drawDayChart_def group_rows_def
    by (simp add: sort_day_sessions_def)
qed

lemma drawDayCharts_ok:
  assumes "distinct (all_ids st)" "distinct dgs" "set dgs \<subseteq> s_date_group ` set (sessions st)"
  shows "drawDayCharts dgs st =
     (None, st\<lparr>sessions := map (\<lambda>s. if s_date_group s \<in> set dgs then sort_windows s else s) (sessions st),
               chartItems := (\<lambda>d. if d \<in> set dgs then Some (group_rows st d) else chartItems st d)\<rparr>)"
  using assms
proof (induction dgs arbitrary: st)
  case Nil
  then show ?case by simp
next
  case (Cons d rest)
  let ?st1 = "sort_day_sessions d st\<lparr>chartItems := (chartItems st)(d \<mapsto> group_rows st d)\<rparr>"
  from Cons.prems have dm: "d \<in> s_date_group ` set (sessions st)" by simp
  have step: "drawDayCharts (d # rest) st = drawDayCharts rest ?st1"
    using drawDayChart_group[OF Cons.prems(1) dm] by simp
  have p1: "distinct (all_ids ?st1)" using Cons.prems(1) by simp
  have p2: "distinct rest" using Cons.prems(2) by simp
  have p3: "set rest \<subseteq> s_date_group ` set (sessions ?st1)" using Cons.prems(3) by simp
  have nd: "d \<notin> set rest" using Cons.prems(2) by simp
  have ss: "map (\<lambda>s. if s_date_group s \<in> set rest then sort_windows s else s) (sessions ?st1) =
            map (\<lambda>s. if s_date_group s \<in> set (d # rest) then sort_windows s else s) (sessions st)"
    using nd by (auto simp: sort_day_sessions_def)
  have ch: "(\<lambda>x. if x \<in> set rest then Some (group_rows ?st1 x) else chartItems ?st1 x) =
            (\<lambda>x. if x \<in> set (d # rest) then Some (group_rows st x) else chartItems st x)"
  proof -
    have "group_rows ?st1 x = group_rows st x" if "x \<in> set rest" for x
    proof -
      from that nd have "x \<noteq> d" by auto
      then show ?thesis by (rule group_rows_sort_day)
    qed
    then show ?thesis by (auto simp: fun_eq_iff)
  qed
  show ?case
    unfolding step Cons.IH[OF p1 p2 p3] ss ch
    by (simp add: sort_day_sessions_def)
qed

lemma getSessions_done_filled: "getSessions_done dat st = updateTable (filled dat st)"
  by (cases st)
    (simp add: getSessions_done_def filled_def Let_def load_sessions_eq load_timeEntries_eq
      load_log_eq)

lemma all_ids_filled:
  "all_ids (filled dat st) = [idCounter st..<idCounter (filled dat st)]"
proof -
  let ?n = "idCounter st" and ?a = "length (d_sessions dat)" and ?b = "length (d_time_entries dat)"
    and ?c = "length (d_log dat)"
  have 1: "[?n..<?n + ?a + ?b + ?c] = [?n..<?n + ?a + ?b] @ [?n + ?a + ?b..<?n + ?a + ?b + ?c]"
    by (rule upt_add_eq_append) simp
  have 2: "[?n..<?n + ?a + ?b] = [?n..<?n + ?a] @ [?n + ?a..<?n + ?a + ?b]"
    by (rule upt_add_eq_append) simp
  have ids: "all_ids (filled dat st) =
      [?n..<?n + ?a] @ [?n + ?a..<?n + ?a + ?b] @ [?n + ?a + ?b..<?n + ?a + ?b + ?c]"
    by (simp add: all_ids_def filled_def)
  have cnt: "idCounter (filled dat st) = ?n + ?a + ?b + ?c"
    by (simp add: filled_def)
  show ?thesis by (simp only: ids cnt 1 2 append_assoc)
qed

lemma distinct_all_ids_filled: "distinct (all_ids (filled dat st))"
  by (simp only: all_ids_filled distinct_upt)

lemma map_sort_all:
  "map (\<lambda>s. if s_date_group s \<in> s_date_group ` set ss then sort_windows s else s) ss =
     map sort_windows ss"
  by (rule map_cong) auto

lemma chartItems_filled: "chartItems (filled dat st) = Map.empty"
  by (simp add: filled_def)

lemma updateTable_ok:
  assumes "distinct (all_ids st)"
  shows "updateTable st =
     (None, st\<lparr>sessions := map sort_windows (sessions st),
               chartItems := (\<lambda>d. if d \<in> s_date_group ` set (sessions st)
                                  then Some (group_rows st d) else chartItems st d)\<rparr>)"
proof -
  have s: "set (dateGroups_of (sessions st)) \<subseteq> s_date_group ` set (sessions st)"
    by (simp add: set_dateGroups_of)
  have "updateTable st =
     (None, st\<lparr>sessions := map (\<lambda>s. if s_date_group s \<in> set (dateGroups_of (sessions st))
                                     then sort_windows s else s) (sessions st),
               chartItems := (\<lambda>d. if d \<in> set (dateGroups_of (sessions st))
                                  then Some (group_rows st d) else chartItems st d)\<rparr>)"
    unfolding updateTable_def by (rule drawDayCharts_ok[OF assms distinct_dateGroups_of s])
  then show ?thesis
    by (simp only: set_dateGroups_of map_sort_all)
qed

lemma filter_sorted_all:
  "filter (\<lambda>s. s_date_group s = d) (map sort_windows ss) =
     map sort_windows (filter (\<lambda>s. s_date_group s = d) ss)"
  by (induction ss) simp_all

lemma group_rows_sorted:
  "group_rows (st\<lparr>sessions := map sort_windows (sessions st), chartItems := ch\<rparr>) d = group_rows st d"
  by (simp add: group_rows_def day_rows_def filter_sorted_all comp_def sort_windows_def
      sort_cmp_wcmp_idem)

lemma date_groups_sorted:
  "s_date_group ` set (map sort_windows ss) = s_date_group ` set ss"
  by (simp add: image_image)

lemma all_ids_sorted:
  "all_ids (st\<lparr>sessions := map sort_windows (sessions st), chartItems := ch\<rparr>) = all_ids st"
  by (simp add: all_ids_def comp_def)

lemma getSessions_done_ok:
  "fst (getSessions_done dat st) = None"
  "sessions (snd (getSessions_done dat st)) =
     map sort_windows (loaded_sessions (idCounter st) (d_sessions dat))"
  "timeEntries (snd (getSessions_done dat st)) =
     loaded_entries (idCounter st + length (d_sessions dat)) (d_time_entries dat)"
  "log (snd (getSessions_done dat st)) =
     loaded_log (idCounter st + length (d_sessions dat) + length (d_time_entries dat)) (d_log dat)"
  "idCounter (snd (getSessions_done dat st)) =
     idCounter st + length (d_sessions dat) + length (d_time_entries dat) + length (d_log dat)"
  "chartItems (snd (getSessions_done dat st)) =
     (\<lambda>d. if d \<in> s_date_group ` set (sessions (snd (getSessions_done dat st)))
          then Some (group_rows (snd (getSessions_done dat st)) d) else None)"
  "all_ids (snd (getSessions_done dat st)) =
     [idCounter st..<idCounter (snd (getSessions_done dat st))]"
  "global_selected (snd (getSessions_done dat st)) = global_selected st"
  "global_selected_last (snd (getSessions_done dat st)) = global_selected_last st"
proof -
  let ?f = "filled dat st"
  let ?r = "?f\<lparr>sessions := map sort_windows (sessions ?f),
               chartItems := (\<lambda>d. if d \<in> s_date_group ` set (sessions ?f)
                                  then Some (group_rows ?f d) else chartItems ?f d)\<rparr>"
  have e: "getSessions_done dat st = (None, ?r)"
    unfolding getSessions_done_filled by (rule updateTable_ok[OF distinct_all_ids_filled])
  show "fst (getSessions_done dat st) = None" by (simp add: e)
  show "sessions (snd (getSessions_done dat st)) =
     map sort_windows (loaded_sessions (idCounter st) (d_sessions dat))"
    by (simp add: e filled_def)
  show "timeEntries (snd (getSessions_done dat st)) =
     loaded_entries (idCounter st + length (d_sessions dat)) (d_time_entries dat)"
    by (simp add: e filled_def)
  show "log (snd (getSessions_done dat st)) =
     loaded_log (idCounter st + length (d_sessions dat) + length (d_time_entries dat)) (d_log dat)"
    by (simp add: e filled_def)
  show "idCounter (snd (getSessions_done dat st)) =
     idCounter st + length (d_sessions dat) + length (d_time_entries dat) + length (d_log dat)"
    by (simp add: e filled_def)
  have g: "group_rows ?r d = group_rows ?f d" for d
    by (rule group_rows_sorted)
  have dg: "s_date_group ` set (sessions ?r) = s_date_group ` set (sessions ?f)"
    by (simp add: image_image)
  have "chartItems ?r =
     (\<lambda>d. if d \<in> s_date_group ` set (sessions ?r) then Some (group_rows ?r d) else None)"
    unfolding g dg by (simp add: chartItems_filled cong: if_cong)
  then show "chartItems (snd (getSessions_done dat st)) =
     (\<lambda>d. if d \<in> s_date_group ` set (sessions (snd (getSessions_done dat st)))
          then Some (group_rows (snd (getSessions_done dat st)) d) else None)"
    by (simp only: e snd_conv)
  have "all_ids ?r = all_ids ?f" by (rule all_ids_sorted)
  moreover have "idCounter ?r = idCounter ?f" by simp
  ultimately show "all_ids (snd (getSessions_done dat st)) =
     [idCounter st..<idCounter (snd (getSessions_done dat st))]"
    by (simp only: e snd_conv all_ids_filled)
  show "global_selected (snd (getSessions_done dat st)) = global_selected st"
    by (simp add: e filled_def)
  show "global_selected_last (snd (getSessions_done dat st)) = global_selected_last st"
    by (simp add: e filled_def)
qed

subsection \<open>The rows a load builds\<close>

lemma count_list_distinct: "distinct xs \<Longrightarrow> count_list xs x = (if x \<in> set xs then 1 else 0)"
  by (induction xs) auto

lemma mem_image_filter_inj:
  assumes "distinct (map f xs)" "x \<in> set xs"
  shows "f x \<in> f ` set (filter P xs) \<longleftrightarrow> P x"
proof -
  from assms(1) have "inj_on f (set xs)" by (simp add: distinct_map)
  with assms(2) show ?thesis by (auto simp: inj_on_def)
qed

lemma all_ids_parts:
  assumes "distinct (all_ids st)"
  shows "distinct (map s_idcounter (sessions st))" "distinct (map e_idcounter (timeEntries st))"
    "distinct (map c_idcounter (log st))"
    "s_idcounter ` set (sessions st) \<inter> e_idcounter ` set (timeEntries st) = {}"
    "s_idcounter ` set (sessions st) \<inter> c_idcounter ` set (log st) = {}"
    "e_idcounter ` set (timeEntries st) \<inter> c_idcounter ` set (log st) = {}"
  using assms by (simp_all add: all_ids_def Int_Un_distrib)

lemma set_ids_group_rows:
  "set (map r_id (group_rows st d)) =
     s_idcounter ` set (filter (\<lambda>s. s_date_group s = d) (sessions st)) \<union>
     e_idcounter ` set (filter (\<lambda>s. e_date_group s = d) (timeEntries st)) \<union>
     c_idcounter ` set (filter (\<lambda>s. c_date_group s = d) (log st))"
  unfolding ids_group_rows by (simp only: set_append set_map Un_assoc)

lemma session_in_group:
  assumes "distinct (all_ids st)" "s \<in> set (sessions st)"
  shows "s_idcounter s \<in> set (map r_id (group_rows st d)) \<longleftrightarrow> s_date_group s = d"
proof -
  note p = all_ids_parts[OF assms(1)]
  have a: "s_idcounter s \<in> s_idcounter ` set (filter (\<lambda>s. s_date_group s = d) (sessions st))
        \<longleftrightarrow> s_date_group s = d"
    by (rule mem_image_filter_inj[OF p(1) assms(2)])
  have "s_idcounter s \<in> s_idcounter ` set (sessions st)" using assms(2) by (rule imageI)
  with p(4) p(5) have b: "s_idcounter s \<notin> e_idcounter ` set (timeEntries st)"
    "s_idcounter s \<notin> c_idcounter ` set (log st)" by blast+
  have "e_idcounter ` set (filter (\<lambda>s. e_date_group s = d) (timeEntries st)) \<subseteq> e_idcounter ` set (timeEntries st)"
    "c_idcounter ` set (filter (\<lambda>s. c_date_group s = d) (log st)) \<subseteq> c_idcounter ` set (log st)"
    by auto
  with b have c: "s_idcounter s \<notin> e_idcounter ` set (filter (\<lambda>s. e_date_group s = d) (timeEntries st))"
    "s_idcounter s \<notin> c_idcounter ` set (filter (\<lambda>s. c_date_group s = d) (log st))" by blast+
  show ?thesis unfolding set_ids_group_rows using a c by blast
qed

lemma entry_in_group:
  assumes "distinct (all_ids st)" "e \<in> set (timeEntries st)"
  shows "e_idcounter e \<in> set (map r_id (group_rows st d)) \<longleftrightarrow> e_date_group e = d"
proof -
  note p = all_ids_parts[OF assms(1)]
  have a: "e_idcounter e \<in> e_idcounter ` set (filter (\<lambda>s. e_date_group s = d) (timeEntries st))
        \<longleftrightarrow> e_date_group e = d"
    by (rule mem_image_filter_inj[OF p(2) assms(2)])
  have "e_idcounter e \<in> e_idcounter ` set (timeEntries st)" using assms(2) by (rule imageI)
  with p(4) p(6) have b: "e_idcounter e \<notin> s_idcounter ` set (sessions st)"
    "e_idcounter e \<notin> c_idcounter ` set (log st)" by blast+
  have "s_idcounter ` set (filter (\<lambda>s. s_date_group s = d) (sessions st)) \<subseteq> s_idcounter ` set (sessions st)"
    "c_idcounter ` set (filter (\<lambda>s. c_date_group s = d) (log st)) \<subseteq> c_idcounter ` set (log st)"
    by auto
  with b have c: "e_idcounter e \<notin> s_idcounter ` set (filter (\<lambda>s. s_date_group s = d) (sessions st))"
    "e_idcounter e \<notin> c_idcounter ` set (filter (\<lambda>s. c_date_group s = d) (log st))" by blast+
  show ?thesis unfolding set_ids_group_rows using a c by blast
qed

lemma commit_in_group:
  assumes "distinct (all_ids st)" "c \<in> set (log st)"
  shows "c_idcounter c \<in> set (map r_id (group_rows st d)) \<longleftrightarrow> c_date_group c = d"
proof -
  note p = all_ids_parts[OF assms(1)]
  have a: "c_idcounter c \<in> c_idcounter ` set (filter (\<lambda>s. c_date_group s = d) (log st))
        \<longleftrightarrow> c_date_group c = d"
    by (rule mem_image_filter_inj[OF p(3) assms(2)])
  have "c_idcounter c \<in> c_idcounter ` set (log st)" using assms(2) by (rule imageI)
  with p(5) p(6) have b: "c_idcounter c \<notin> s_idcounter ` set (sessions st)"
    "c_idcounter c \<notin> e_idcounter ` set (timeEntries st)" by blast+
  have "s_idcounter ` set (filter (\<lambda>s. s_date_group s = d) (sessions st)) \<subseteq> s_idcounter ` set (sessions st)"
    "e_idcounter ` set (filter (\<lambda>s. e_date_group s = d) (timeEntries st)) \<subseteq> e_idcounter ` set (timeEntries st)"
    by auto
  with b have c: "c_idcounter c \<notin> s_idcounter ` set (filter (\<lambda>s. s_date_group s = d) (sessions st))"
    "c_idcounter c \<notin> e_idcounter ` set (filter (\<lambda>s. e_date_group s = d) (timeEntries st))" by blast+
  show ?thesis unfolding set_ids_group_rows using a c by blast
qed

lemma distinct_all_ids_loaded: "distinct (all_ids (snd (getSessions_done dat st)))"
  by (simp only: getSessions_done_ok(7) distinct_upt)

lemma rows_of_loaded:
  "rows_of (snd (getSessions_done dat st)) d =
     (if d \<in> s_date_group ` set (sessions (snd (getSessions_done dat st)))
      then group_rows (snd (getSessions_done dat st)) d else [])"
  unfolding rows_of_def by (subst getSessions_done_ok(6)) simp

lemma count_rows_loaded:
  "count_list (map r_id (rows_of (snd (getSessions_done dat st)) d)) i =
     (if d \<in> s_date_group ` set (sessions (snd (getSessions_done dat st))) \<and>
         i \<in> set (map r_id (group_rows (snd (getSessions_done dat st)) d)) then 1 else 0)"
  unfolding rows_of_loaded
  by (simp add: count_list_distinct[OF distinct_ids_group_rows[OF distinct_all_ids_loaded]])

text \<open>
  Claim C1, as the code has it. A load never throws. It builds one row collection for
  each date group that some session has, and for no other date group. The collection of
  such a group is the projection, in load order, of the sessions, then the entries, then
  the commits whose date group equals it. So every session has its row exactly once, in
  the collection of its date group; an entry or a commit has its row exactly once, in the
  collection of its date group, when some session has that date group, and in no
  collection at all otherwise.
\<close>

theorem load_places_entities:
  "fst (getSessions_done dat st) = None \<and>
   dom (chartItems (snd (getSessions_done dat st))) =
     s_date_group ` set (sessions (snd (getSessions_done dat st))) \<and>
   (\<forall>d\<in>s_date_group ` set (sessions (snd (getSessions_done dat st))).
      rows_of (snd (getSessions_done dat st)) d = group_rows (snd (getSessions_done dat st)) d) \<and>
   (\<forall>s\<in>set (sessions (snd (getSessions_done dat st))). \<forall>d.
      count_list (map r_id (rows_of (snd (getSessions_done dat st)) d)) (s_idcounter s) =
        (if d = s_date_group s then 1 else 0)) \<and>
   (\<forall>e\<in>set (timeEntries (snd (getSessions_done dat st))). \<forall>d.
      count_list (map r_id (rows_of (snd (getSessions_done dat st)) d)) (e_idcounter e) =
        (if d = e_date_group e \<and>
            e_date_group e \<in> s_date_group ` set (sessions (snd (getSessions_done dat st)))
         then 1 else 0)) \<and>
   (\<forall>c\<in>set (log (snd (getSessions_done dat st))). \<forall>d.
      count_list (map r_id (rows_of (snd (getSessions_done dat st)) d)) (c_idcounter c) =
        (if d = c_date_group c \<and>
            c_date_group c \<in> s_date_group ` set (sessions (snd (getSessions_done dat st)))
         then 1 else 0))"
proof -
  let ?st = "snd (getSessions_done dat st)"
  note d = distinct_all_ids_loaded[of dat st]
  have 1: "fst (getSessions_done dat st) = None" by (rule getSessions_done_ok(1))
  have 2: "dom (chartItems ?st) = s_date_group ` set (sessions ?st)"
    by (subst getSessions_done_ok(6)) (auto simp: dom_def)
  have 3: "\<forall>d\<in>s_date_group ` set (sessions ?st). rows_of ?st d = group_rows ?st d"
    by (simp add: rows_of_loaded)
  have 4: "\<forall>s\<in>set (sessions ?st). \<forall>d.
      count_list (map r_id (rows_of ?st d)) (s_idcounter s) = (if d = s_date_group s then 1 else 0)"
    unfolding count_rows_loaded using session_in_group[OF d] by auto
  have 5: "\<forall>e\<in>set (timeEntries ?st). \<forall>d.
      count_list (map r_id (rows_of ?st d)) (e_idcounter e) =
        (if d = e_date_group e \<and> e_date_group e \<in> s_date_group ` set (sessions ?st) then 1 else 0)"
    unfolding count_rows_loaded using entry_in_group[OF d] by auto
  have 6: "\<forall>c\<in>set (log ?st). \<forall>d.
      count_list (map r_id (rows_of ?st d)) (c_idcounter c) =
        (if d = c_date_group c \<and> c_date_group c \<in> s_date_group ` set (sessions ?st) then 1 else 0)"
    unfolding count_rows_loaded using commit_in_group[OF d] by auto
  from 1 2 3 4 5 6 show ?thesis by blast
qed

text \<open>
  Claim C1, as stated, fails. The only date group of the sessions is the first of March,
  whose collection holds the rows 0, 1, 2 and 4. The entry with local identity 3 is
  loaded, its date group is the second of March, and no collection holds its row.
\<close>

theorem load_omits_entry:
  "map s_date_group (sessions ex_loaded) = [''2019-03-01'', ''2019-03-01''] \<and>
   map e_idcounter (timeEntries ex_loaded) = [2, 3] \<and>
   map r_id (rows_of ex_loaded ''2019-03-01'') = [0, 1, 2, 4] \<and>
   chartItems ex_loaded ''2019-03-02'' = None"
  by code_simp

text \<open>
  C1 at the example response: the session 0, the entries 2 and 3 and the commit 4.
\<close>

theorem load_places_entities_witness:
  "fst (getSessions_done ex_data init) = None \<and>
   dom (chartItems ex_loaded) = {''2019-03-01''} \<and>
   map r_id (rows_of ex_loaded ''2019-03-01'') = [0, 1, 2, 4] \<and>
   count_list (map r_id (rows_of ex_loaded ''2019-03-01'')) 0 = 1 \<and>
   count_list (map r_id (rows_of ex_loaded ''2019-03-02'')) 0 = 0 \<and>
   count_list (map r_id (rows_of ex_loaded ''2019-03-01'')) 2 = 1 \<and>
   count_list (map r_id (rows_of ex_loaded ''2019-03-01'')) 3 = 0 \<and>
   count_list (map r_id (rows_of ex_loaded ''2019-03-02'')) 3 = 0 \<and>
   count_list (map r_id (rows_of ex_loaded ''2019-03-01'')) 4 = 1"
proof -
  note t = load_places_entities[of ex_data init, folded ex_loaded_def]
  have dg: "map s_date_group (sessions ex_loaded) = [''2019-03-01'', ''2019-03-01'']"
    by code_simp
  then have "set (map s_date_group (sessions ex_loaded)) = {''2019-03-01''}"
    by (simp only:) simp
  then have im: "s_date_group ` set (sessions ex_loaded) = {''2019-03-01''}"
    by (simp only: set_map)
  define S where "S = sort_windows ((parseSession ex_raw_session1)\<lparr>s_idcounter := 0\<rparr>)"
  define E1 where "E1 = (parseTimeEntry ex_raw_entry1)\<lparr>e_idcounter := 2\<rparr>"
  define E2 where "E2 = (parseTimeEntry ex_raw_entry2)\<lparr>e_idcounter := 3\<rparr>"
  define C where "C = (parseCommit ex_raw_commit)\<lparr>c_idcounter := 4\<rparr>"
  have s: "S \<in> set (sessions ex_loaded)" "s_idcounter S = 0" "s_date_group S = ''2019-03-01''"
    unfolding S_def by code_simp+
  have e1: "E1 \<in> set (timeEntries ex_loaded)" "e_idcounter E1 = 2" "e_date_group E1 = ''2019-03-01''"
    unfolding E1_def by code_simp+
  have e2: "E2 \<in> set (timeEntries ex_loaded)" "e_idcounter E2 = 3" "e_date_group E2 = ''2019-03-02''"
    unfolding E2_def by code_simp+
  have c: "C \<in> set (log ex_loaded)" "c_idcounter C = 4" "c_date_group C = ''2019-03-01''"
    unfolding C_def by code_simp+
  have r: "map r_id (rows_of ex_loaded ''2019-03-01'') = [0, 1, 2, 4]" by code_simp
  from t have 1: "fst (getSessions_done ex_data init) = None" by blast
  from t im have 2: "dom (chartItems ex_loaded) = {''2019-03-01''}" by (simp only:)
  from t s(1) have "\<forall>d. count_list (map r_id (rows_of ex_loaded d)) (s_idcounter S) =
      (if d = s_date_group S then 1 else 0)" by blast
  then have 3: "count_list (map r_id (rows_of ex_loaded ''2019-03-01'')) 0 = 1"
    "count_list (map r_id (rows_of ex_loaded ''2019-03-02'')) 0 = 0"
    unfolding s(2) s(3) by simp_all
  from t e1(1) have "\<forall>d. count_list (map r_id (rows_of ex_loaded d)) (e_idcounter E1) =
      (if d = e_date_group E1 \<and> e_date_group E1 \<in> s_date_group ` set (sessions ex_loaded)
       then 1 else 0)" by blast
  then have 4: "count_list (map r_id (rows_of ex_loaded ''2019-03-01'')) 2 = 1"
    unfolding e1(2) e1(3) im by simp
  from t e2(1) have "\<forall>d. count_list (map r_id (rows_of ex_loaded d)) (e_idcounter E2) =
      (if d = e_date_group E2 \<and> e_date_group E2 \<in> s_date_group ` set (sessions ex_loaded)
       then 1 else 0)" by blast
  then have 5: "count_list (map r_id (rows_of ex_loaded ''2019-03-01'')) 3 = 0"
    "count_list (map r_id (rows_of ex_loaded ''2019-03-02'')) 3 = 0"
    unfolding e2(2) e2(3) im by simp_all
  from t c(1) have "\<forall>d. count_list (map r_id (rows_of ex_loaded d)) (c_idcounter C) =
      (if d = c_date_group C \<and> c_date_group C \<in> s_date_group ` set (sessions ex_loaded)
       then 1 else 0)" by blast
  then have 6: "count_list (map r_id (rows_of ex_loaded ''2019-03-01'')) 4 = 1"
    unfolding c(2) c(3) im by simp
  from 1 2 r 3 4 5 6 show ?thesis by blast
qed

subsection \<open>Invariants of the runs\<close>

lemma refresh_loop_ids:
  "refresh_loop n es ch = (err, es', ch') \<Longrightarrow> map e_idcounter es' = map e_idcounter es"
proof (induction es arbitrary: ch err es' ch')
  case Nil
  then show ?case by simp
next
  case (Cons e es)
  show ?case
  proof (cases "e_id e = e_id n")
    case True
    show ?thesis
    proof (cases "ch (e_date_group e)")
      case None
      with True Cons.prems show ?thesis by (auto simp: Let_def)
    next
      case (Some c)
      obtain err1 es1 ch1 where r: "refresh_loop n es
          (ch(e_date_group e \<mapsto> ds_update c (refresh_payload (refresh_fields n e)))) = (err1, es1, ch1)"
        by (cases "refresh_loop n es
          (ch(e_date_group e \<mapsto> ds_update c (refresh_payload (refresh_fields n e))))")
      from Cons.IH[OF r] True Some Cons.prems r show ?thesis by (auto simp: Let_def)
    qed
  next
    case False
    obtain err1 es1 ch1 where r: "refresh_loop n es ch = (err1, es1, ch1)"
      by (cases "refresh_loop n es ch")
    from Cons.IH[OF r] False Cons.prems r show ?thesis by auto
  qed
qed

lemma ds_update_ids_bound:
  assumes "\<forall>r\<in>set c. r_id r < N" "r_id upd < N"
  shows "\<forall>r\<in>set (ds_update c upd). r_id r < N"
  using assms by (auto simp: ds_update_def)

lemma refresh_loop_rows_bound:
  assumes "refresh_loop n es ch = (err, es', ch')"
    "\<forall>e\<in>set es. e_idcounter e < N"
    "\<forall>d c. ch d = Some c \<longrightarrow> (\<forall>r\<in>set c. r_id r < N)"
  shows "(\<forall>d c. ch' d = Some c \<longrightarrow> (\<forall>r\<in>set c. r_id r < N)) \<and> dom ch' = dom ch"
  using assms
proof (induction es arbitrary: ch err es' ch')
  case Nil
  then show ?case by simp
next
  case (Cons e es)
  from Cons.prems(2) have b: "\<forall>e\<in>set es. e_idcounter e < N" "e_idcounter e < N" by simp_all
  show ?case
  proof (cases "e_id e = e_id n")
    case True
    show ?thesis
    proof (cases "ch (e_date_group e)")
      case None
      with True Cons.prems(1) have "ch' = ch" by (auto simp: Let_def)
      with Cons.prems(3) show ?thesis by simp
    next
      case (Some c)
      let ?ch1 = "ch(e_date_group e \<mapsto> ds_update c (refresh_payload (refresh_fields n e)))"
      obtain err1 es1 ch1 where r: "refresh_loop n es ?ch1 = (err1, es1, ch1)"
        by (cases "refresh_loop n es ?ch1")
      from True Some Cons.prems(1) r have eq: "ch' = ch1" by (auto simp: Let_def)
      from Cons.prems(3) Some have "\<forall>r\<in>set c. r_id r < N" by blast
      then have "\<forall>r\<in>set (ds_update c (refresh_payload (refresh_fields n e))). r_id r < N"
        using b(2) by (intro ds_update_ids_bound) simp_all
      with Cons.prems(3) have h: "\<forall>d c. ?ch1 d = Some c \<longrightarrow> (\<forall>r\<in>set c. r_id r < N)"
        by auto
      from Cons.IH[OF r b(1) h] have "(\<forall>d c. ch1 d = Some c \<longrightarrow> (\<forall>r\<in>set c. r_id r < N))"
        "dom ch1 = dom ?ch1" by blast+
      moreover have "dom ?ch1 = dom ch" using Some by auto
      ultimately show ?thesis using eq by simp
    qed
  next
    case False
    obtain err1 es1 ch1 where r: "refresh_loop n es ch = (err1, es1, ch1)"
      by (cases "refresh_loop n es ch")
    from False Cons.prems(1) r have eq: "ch' = ch1" by auto
    from Cons.IH[OF r b(1) Cons.prems(3)] eq show ?thesis by simp
  qed
qed

lemma refreshEntry_frame:
  "sessions (snd (refreshEntry n st)) = sessions st"
  "log (snd (refreshEntry n st)) = log st"
  "idCounter (snd (refreshEntry n st)) = idCounter st"
  "map e_idcounter (timeEntries (snd (refreshEntry n st))) = map e_idcounter (timeEntries st)"
  "global_selected (snd (refreshEntry n st)) = global_selected st"
  "global_selected_last (snd (refreshEntry n st)) = global_selected_last st"
proof -
  obtain err es' ch' where r: "refresh_loop n (timeEntries st) (chartItems st) = (err, es', ch')"
    by (cases "refresh_loop n (timeEntries st) (chartItems st)")
  then have e: "refreshEntry n st = (err, st\<lparr>timeEntries := es', chartItems := ch'\<rparr>)"
    by (simp add: refreshEntry_def)
  show "sessions (snd (refreshEntry n st)) = sessions st" by (simp add: e)
  show "log (snd (refreshEntry n st)) = log st" by (simp add: e)
  show "idCounter (snd (refreshEntry n st)) = idCounter st" by (simp add: e)
  show "map e_idcounter (timeEntries (snd (refreshEntry n st))) = map e_idcounter (timeEntries st)"
    using refresh_loop_ids[OF r] by (simp add: e)
  show "global_selected (snd (refreshEntry n st)) = global_selected st" by (simp add: e)
  show "global_selected_last (snd (refreshEntry n st)) = global_selected_last st" by (simp add: e)
qed

lemma all_ids_refreshEntry: "all_ids (snd (refreshEntry n st)) = all_ids st"
  by (simp add: all_ids_def refreshEntry_frame)

lemma refreshEntry_charts:
  assumes "ids_ok st" "rows_ok st"
  shows "rows_ok (snd (refreshEntry n st))"
    "dom (chartItems (snd (refreshEntry n st))) = dom (chartItems st)"
proof -
  obtain err es' ch' where r: "refresh_loop n (timeEntries st) (chartItems st) = (err, es', ch')"
    by (cases "refresh_loop n (timeEntries st) (chartItems st)")
  then have e: "refreshEntry n st = (err, st\<lparr>timeEntries := es', chartItems := ch'\<rparr>)"
    by (simp add: refreshEntry_def)
  from assms(1) have b: "\<forall>e\<in>set (timeEntries st). e_idcounter e < idCounter st"
    by (auto simp: ids_ok_def all_ids_def)
  from assms(2) have c: "\<forall>d c. chartItems st d = Some c \<longrightarrow> (\<forall>r\<in>set c. r_id r < idCounter st)"
    by (simp add: rows_ok_def)
  from refresh_loop_rows_bound[OF r b c]
  show "rows_ok (snd (refreshEntry n st))"
    "dom (chartItems (snd (refreshEntry n st))) = dom (chartItems st)"
    by (simp_all add: e rows_ok_def)
qed

lemma createEntry_ok:
  assumes "chartItems st dg = Some c" "idCounter st \<notin> set (map r_id c)"
  shows "createEntry dg raw st =
     (None, st\<lparr>idCounter := idCounter st + 1,
               timeEntries := timeEntries st @ [created_entry dg raw (idCounter st)],
               chartItems := (chartItems st)(dg \<mapsto>
                 c @ [fst (makeRow (Entry (created_entry dg raw (idCounter st))))])\<rparr>)"
  using assms by (simp add: createEntry_def created_entry_def Let_def ds_add_def)

lemma createEntry_frame:
  "sessions (snd (createEntry dg raw st)) = sessions st"
  "log (snd (createEntry dg raw st)) = log st"
  "idCounter (snd (createEntry dg raw st)) = idCounter st + 1"
  "timeEntries (snd (createEntry dg raw st)) =
     timeEntries st @ [created_entry dg raw (idCounter st)]"
  "global_selected (snd (createEntry dg raw st)) = global_selected st"
  "global_selected_last (snd (createEntry dg raw st)) = global_selected_last st"
  by (simp_all add: createEntry_def created_entry_def Let_def ds_add_def
      split: option.splits sum.splits)

lemma createEntry_charts:
  assumes "rows_ok st"
  shows "rows_ok (snd (createEntry dg raw st))"
    "dom (chartItems (snd (createEntry dg raw st))) = dom (chartItems st)"
proof -
  from assms have b: "\<And>d c r. chartItems st d = Some c \<Longrightarrow> r \<in> set c \<Longrightarrow> r_id r < idCounter st"
    by (auto simp: rows_ok_def)
  show "rows_ok (snd (createEntry dg raw st))"
    unfolding rows_ok_def createEntry_def Let_def ds_add_def
    by (auto split: option.splits if_splits dest: b simp: less_Suc_eq)
  show "dom (chartItems (snd (createEntry dg raw st))) = dom (chartItems st)"
    unfolding createEntry_def Let_def ds_add_def
    by (auto split: option.splits if_splits)
qed

lemma all_ids_createEntry:
  "all_ids (snd (createEntry dg raw st)) =
     map s_idcounter (sessions st) @ (map e_idcounter (timeEntries st) @ [idCounter st]) @
     map c_idcounter (log st)"
  by (simp add: all_ids_def createEntry_frame created_entry_def)

lemma ids_ok_createEntry:
  assumes "ids_ok st"
  shows "ids_ok (snd (createEntry dg raw st))"
proof -
  from assms have d: "distinct (all_ids st)" and b: "\<forall>i\<in>set (all_ids st). i < idCounter st"
    by (simp_all add: ids_ok_def)
  from b have nin: "idCounter st \<notin> set (all_ids st)" by auto
  note e = all_ids_createEntry[of dg raw st]
  have "distinct (all_ids (snd (createEntry dg raw st)))"
    unfolding e using d nin by (auto simp: all_ids_def)
  moreover have se: "set (all_ids (snd (createEntry dg raw st))) =
      insert (idCounter st) (set (all_ids st))"
    unfolding e by (auto simp: all_ids_def)
  have "\<forall>i\<in>set (all_ids (snd (createEntry dg raw st))).
      i < idCounter (snd (createEntry dg raw st))"
    unfolding se createEntry_frame using b by (simp add: less_Suc_eq)
  ultimately show ?thesis by (simp add: ids_ok_def)
qed

lemma ids_ok_refreshEntry: "ids_ok st \<Longrightarrow> ids_ok (snd (refreshEntry n st))"
  by (simp add: ids_ok_def all_ids_refreshEntry refreshEntry_frame)

lemma sessions_charted_dom:
  assumes "sessions_charted st" "sessions st' = sessions st"
    "dom (chartItems st) \<subseteq> dom (chartItems st')"
  shows "sessions_charted st'"
  using assms unfolding sessions_charted_def by (auto simp: dom_def)

lemma inv_refreshEntry: "inv st \<Longrightarrow> inv (snd (refreshEntry n st))"
  unfolding inv_def
  using ids_ok_refreshEntry refreshEntry_charts sessions_charted_dom[of st "snd (refreshEntry n st)"]
    refreshEntry_frame(1)[of n st]
  by auto

lemma inv_createEntry: "inv st \<Longrightarrow> inv (snd (createEntry dg raw st))"
  unfolding inv_def
  using ids_ok_createEntry createEntry_charts sessions_charted_dom[of st "snd (createEntry dg raw st)"]
    createEntry_frame(1)[of dg raw st]
  by auto

lemma splitEntry_done_cases:
  "snd (splitEntry_done date_str dat st) = snd (refreshEntry (entry1 dat) st) \<and>
     fst (refreshEntry (entry1 dat) st) \<noteq> None \<or>
   snd (splitEntry_done date_str dat st) =
     snd (createEntry date_str (entry2 dat) (snd (refreshEntry (entry1 dat) st))) \<and>
     fst (refreshEntry (entry1 dat) st) = None"
  by (cases "refreshEntry (entry1 dat) st") (auto simp: splitEntry_done_def split: option.splits)

lemma inv_splitEntry_done: "inv st \<Longrightarrow> inv (snd (splitEntry_done date_str dat st))"
  using splitEntry_done_cases[of date_str dat st] inv_refreshEntry inv_createEntry by metis

lemma inv_same_entities:
  assumes "inv st" "same_entities st st'"
    "\<forall>d c'. chartItems st' d = Some c' \<longrightarrow>
       (\<exists>c. chartItems st d = Some c \<and> set (map r_id c') \<subseteq> set (map r_id c))"
    "dom (chartItems st) \<subseteq> dom (chartItems st')"
  shows "inv st'"
proof -
  from assms(1) have i: "ids_ok st" and r: "rows_ok st" and s: "sessions_charted st"
    by (simp_all add: inv_def)
  from assms(2) have a: "all_ids st' = all_ids st" "idCounter st' = idCounter st"
    "sessions st' = sessions st"
    by (simp_all add: same_entities_def all_ids_def)
  have "ids_ok st'" using i a by (simp add: ids_ok_def)
  moreover have "rows_ok st'"
    unfolding rows_ok_def
  proof (intro allI impI ballI)
    fix d c' x assume h: "chartItems st' d = Some c'" "x \<in> set c'"
    with assms(3) obtain c where c: "chartItems st d = Some c" "set (map r_id c') \<subseteq> set (map r_id c)"
      by blast
    from h(2) have "r_id x \<in> set (map r_id c')" by simp
    with c(2) obtain y where "y \<in> set c" "r_id y = r_id x" by auto
    with r c(1) show "r_id x < idCounter st'" unfolding rows_ok_def a(2) by metis
  qed
  moreover have "sessions_charted st'" by (rule sessions_charted_dom[OF s a(3) assms(4)])
  ultimately show ?thesis by (simp add: inv_def)
qed

lemma ds_get_Some: "ds_get c i = Some item \<Longrightarrow> item \<in> set c \<and> r_id item = i"
  by (auto simp: ds_get_def find_Some_iff)

lemma ids_ds_update_present:
  "r_id upd \<in> set (map r_id c) \<Longrightarrow> map r_id (ds_update c upd) = map r_id c"
  by (simp add: ds_update_present comp_def if_distrib[of r_id] cong: if_cong)

lemma ids_ds_remove: "set (map r_id (ds_remove c i)) \<subseteq> set (map r_id c)"
  by (auto simp: ds_remove_def)

lemma same_entities_refl [simp]: "same_entities st st"
  by (simp add: same_entities_def)

lemma same_entities_map_chart [simp]: "same_entities st (map_chart d f st)"
  by (simp add: same_entities_def map_chart_def split: option.splits)

lemma chartItems_map_chart:
  "chartItems (map_chart d f st) =
     (case chartItems st d of None \<Rightarrow> chartItems st | Some c \<Rightarrow> (chartItems st)(d \<mapsto> f c))"
  by (simp add: map_chart_def split: option.splits)

lemma charts_shrink_refl [simp]: "charts_shrink st st"
  by (auto simp: charts_shrink_def)

lemma charts_shrink_same: "chartItems st' = chartItems st \<Longrightarrow> charts_shrink st st'"
  by (auto simp: charts_shrink_def)

lemma charts_shrink_map_chart:
  assumes "\<And>c. chartItems st d = Some c \<Longrightarrow> set (map r_id (f c)) \<subseteq> set (map r_id c)"
  shows "charts_shrink st (map_chart d f st)"
  unfolding charts_shrink_def chartItems_map_chart using assms
  by (auto split: option.splits if_splits)

lemma timeline_select_frame:
  "same_entities st (snd (timeline_select d ids st))"
  "chartItems (snd (timeline_select d ids st)) = chartItems st"
  by (auto simp: timeline_select_def same_entities_def Let_def
      split: option.splits list.splits if_splits)

lemma step_Moved_frame:
  "same_entities st (step (Moved d i ns ne frm) st) \<and> charts_shrink st (step (Moved d i ns ne frm) st)"
proof (cases "chartItems st d")
  case None
  then show ?thesis by simp
next
  case (Some c)
  show ?thesis
  proof (cases "ds_get c i")
    case None
    with Some show ?thesis by simp
  next
    case (Some item)
    let ?item = "item\<lparr>r_start := ns, r_end := ne\<rparr>"
    from ds_get_Some[OF Some] have m: "r_id ?item \<in> set (map r_id c)" by force
    have sh: "charts_shrink st (map_chart d (\<lambda>c. ds_update c ?item) st)"
    proof (rule charts_shrink_map_chart)
      fix c' assume "chartItems st d = Some c'"
      with \<open>chartItems st d = Some c\<close> have "c' = c" by simp
      with m show "set (map r_id (ds_update c' ?item)) \<subseteq> set (map r_id c')"
        by (simp only: ids_ds_update_present)
    qed
    from \<open>chartItems st d = Some c\<close> Some sh show ?thesis
      by (auto simp: onMove_def split: option.splits sum.splits prod.splits)
  qed
qed

lemma step_Removed_frame:
  "same_entities st (step (Removed d i) st) \<and> charts_shrink st (step (Removed d i) st)"
proof -
  have sh: "charts_shrink st (map_chart d (\<lambda>c. ds_remove c j) st)" for j
    by (rule charts_shrink_map_chart) (rule ids_ds_remove)
  show ?thesis
    using sh by (auto simp: onRemove_def split: option.splits sum.splits)
qed

lemma inv_widget:
  "inv st \<Longrightarrow> same_entities st st' \<Longrightarrow> charts_shrink st st' \<Longrightarrow> inv st'"
  using inv_same_entities unfolding charts_shrink_def by blast

lemma inv_loaded: "inv (snd (getSessions_done dat st))"
proof -
  let ?st = "snd (getSessions_done dat st)"
  have a: "all_ids ?st = [idCounter st..<idCounter ?st]" by (rule getSessions_done_ok(7))
  have i: "ids_ok ?st" unfolding ids_ok_def a by simp
  have r: "rows_ok ?st"
    unfolding rows_ok_def
  proof (intro allI impI ballI)
    fix d c x assume h: "chartItems ?st d = Some c" "x \<in> set c"
    from h(1) have c: "c = group_rows ?st d"
      by (subst (asm) getSessions_done_ok(6)) (simp split: if_splits)
    from h(2) have "r_id x \<in> set (map r_id c)" by simp
    then have "r_id x \<in> set (all_ids ?st)"
      unfolding c set_ids_group_rows all_ids_def by auto
    then show "r_id x < idCounter ?st" unfolding a by simp
  qed
  have s: "sessions_charted ?st"
    unfolding sessions_charted_def by (subst getSessions_done_ok(6)) simp
  from i r s show ?thesis by (simp add: inv_def)
qed

lemma inv_step: "inv st \<Longrightarrow> inv (step ev st)"
proof (cases ev)
  case (Loaded dat)
  then show ?thesis by (simp add: inv_loaded)
next
  case (Exported dg dat)
  assume "inv st" with Exported show ?thesis by (simp add: inv_createEntry)
next
  case (Refreshed dat)
  assume "inv st" with Refreshed show ?thesis by (simp add: inv_refreshEntry)
next
  case (SplitDone ds dat)
  assume "inv st" with SplitDone show ?thesis by (simp add: inv_splitEntry_done)
next
  case (Deleted dat)
  assume "inv st" with Deleted show ?thesis by (simp add: deleteEntry_done_def)
next
  case (Moved d i ns ne frm)
  assume "inv st" with Moved step_Moved_frame[where st=st and d=d and i=i and ns=ns and ne=ne and frm=frm] show ?thesis
    by (auto intro: inv_widget)
next
  case (Removed d i)
  assume "inv st" with Removed step_Removed_frame[where st=st and d=d and i=i] show ?thesis
    by (auto intro: inv_widget)
next
  case (Selected d ids)
  assume "inv st" with Selected timeline_select_frame[where st=st and d=d and ids=ids] show ?thesis
    by (auto intro: inv_widget charts_shrink_same)
qed

lemma inv_init: "inv init"
  by (simp add: inv_def ids_ok_def rows_ok_def sessions_charted_def all_ids_def init_def)

lemma run_snoc: "run (evs @ [ev]) st = step ev (run evs st)"
  by (simp add: run_def)

lemma inv_run: "inv (run evs init)"
  by (induction evs rule: rev_induct) (simp_all add: run_snoc inv_init inv_step, simp add: run_def inv_init)

lemma keeps_ids_same: "same_entities st st' \<Longrightarrow> keeps_ids st st'"
  by (simp add: keeps_ids_def same_entities_def)

lemma keeps_ids_refreshEntry: "keeps_ids st (snd (refreshEntry n st))"
  by (simp add: keeps_ids_def refreshEntry_frame)

lemma keeps_ids_createEntry: "keeps_ids st (snd (createEntry dg raw st))"
  by (simp add: keeps_ids_def createEntry_frame created_entry_def)

lemma keeps_ids_splitEntry_done: "keeps_ids st (snd (splitEntry_done date_str dat st))"
proof -
  let ?s1 = "snd (refreshEntry (entry1 dat) st)"
  from splitEntry_done_cases[of date_str dat st]
  consider "snd (splitEntry_done date_str dat st) = ?s1"
    | "snd (splitEntry_done date_str dat st) = snd (createEntry date_str (entry2 dat) ?s1)"
    by blast
  then show ?thesis
  proof cases
    case 1
    then show ?thesis by (simp only: keeps_ids_refreshEntry)
  next
    case 2
    show ?thesis
      unfolding 2 keeps_ids_def by (simp add: createEntry_frame refreshEntry_frame created_entry_def)
  qed
qed

lemma step_keeps_ids: "\<not> is_load ev \<Longrightarrow> keeps_ids st (step ev st)"
proof (cases ev)
  case (Moved d i ns ne frm)
  with step_Moved_frame[where st=st and d=d and i=i and ns=ns and ne=ne and frm=frm]
  show ?thesis by (simp only: keeps_ids_same)
next
  case (Removed d i)
  with step_Removed_frame[where st=st and d=d and i=i]
  show ?thesis by (simp only: keeps_ids_same)
next
  case (Selected d ids)
  with timeline_select_frame(1)[where st=st and d=d and ids=ids]
  show ?thesis by (simp add: keeps_ids_same)
qed (simp_all add: keeps_ids_refreshEntry keeps_ids_createEntry keeps_ids_splitEntry_done
      deleteEntry_done_def keeps_ids_same)

lemma step_counter: "idCounter st \<le> idCounter (step ev st)"
proof (cases ev)
  case (Loaded dat)
  then show ?thesis by (simp add: getSessions_done_ok(5))
next
  case (Exported dg dat)
  then show ?thesis by (simp add: createEntry_frame)
next
  case (Refreshed dat)
  then show ?thesis by (simp add: refreshEntry_frame)
next
  case (SplitDone ds dat)
  from splitEntry_done_cases[of ds dat st]
  have "idCounter st \<le> idCounter (snd (splitEntry_done ds dat st))"
    by (auto simp: createEntry_frame refreshEntry_frame)
  with SplitDone show ?thesis by simp
next
  case (Deleted dat)
  then show ?thesis by (simp add: deleteEntry_done_def)
next
  case (Moved d i ns ne frm)
  with step_Moved_frame[where st=st and d=d and i=i and ns=ns and ne=ne and frm=frm]
  show ?thesis by (simp add: same_entities_def)
next
  case (Removed d i)
  with step_Removed_frame[where st=st and d=d and i=i]
  show ?thesis by (simp add: same_entities_def)
next
  case (Selected d ids)
  with timeline_select_frame(1)[where st=st and d=d and ids=ids]
  show ?thesis by (simp add: same_entities_def)
qed

lemma keeps_ids_old_or_fresh:
  assumes "keeps_ids st st'" "i \<in> set (all_ids st')"
  shows "i \<in> set (all_ids st) \<or> idCounter st \<le> i"
proof -
  from assms(1) have
    "set (all_ids st') = set (all_ids st) \<union> set [idCounter st..<idCounter st']"
    unfolding all_ids_def keeps_ids_def
    by (metis (no_types, lifting) set_append set_map Un_assoc Un_commute)
  with assms(2) show ?thesis by auto
qed

lemma ids_ok_run: "ids_ok (run evs init)"
  using inv_run[of evs] by (simp add: inv_def)

lemma refreshEntry_reference_data:
  "projects (snd (refreshEntry n st)) = projects st \<and> issues (snd (refreshEntry n st)) = issues st"
  by (simp add: refreshEntry_def split: prod.splits)

lemma createEntry_reference_data:
  "projects (snd (createEntry dg raw st)) = projects st \<and>
   issues (snd (createEntry dg raw st)) = issues st"
  by (simp add: createEntry_def Let_def split: option.splits sum.splits)

lemma splitEntry_done_reference_data:
  "projects (snd (splitEntry_done date_str dat st)) = projects st \<and>
   issues (snd (splitEntry_done date_str dat st)) = issues st"
  using splitEntry_done_cases[of date_str dat st]
  by (auto simp: refreshEntry_reference_data createEntry_reference_data)

lemma map_chart_reference_data:
  "projects (map_chart d f st) = projects st \<and> issues (map_chart d f st) = issues st"
  by (simp add: map_chart_def split: option.splits)

lemma step_reference_data:
  "\<not> is_load ev \<Longrightarrow> projects (step ev st) = projects st \<and> issues (step ev st) = issues st"
proof (cases ev)
  case (Moved d i ns ne frm)
  then show ?thesis
    by (auto simp: onMove_def map_chart_reference_data
        split: option.splits sum.splits prod.splits if_splits)
next
  case (Removed d i)
  then show ?thesis
    by (auto simp: onRemove_def map_chart_reference_data
        split: option.splits sum.splits prod.splits if_splits)
next
  case (Selected d ids)
  then show ?thesis
    by (auto simp: timeline_select_def Let_def split: option.splits list.splits if_splits)
qed (simp_all add: refreshEntry_reference_data createEntry_reference_data
      splitEntry_done_reference_data deleteEntry_done_def)

text \<open>
  Claim C2, as the code has it. After every sequence of events the local identities of
  the sessions, entries and commits in the store are pairwise distinct and below the
  counter. The counter never decreases. An event other than a load leaves the identity
  of every session, entry and commit that is in the store as it is, and gives the entries
  it adds the values of the counter, in order; a load gives the sessions, entries and
  commits it inserts the consecutive values from the counter on, in load order. So an
  identity that appears with an event is at least the counter before the event, and every
  identity assigned earlier is below it. Projects and issues are kept as the response
  carried them: a load stores them unchanged, no other event touches them, and nothing
  writes their \<open>idcounter\<close>.
\<close>

theorem local_identities:
  "ids_ok (run evs init) \<and>
   idCounter (run evs init) \<le> idCounter (step ev (run evs init)) \<and>
   (if is_load ev
    then all_ids (step ev (run evs init)) =
           [idCounter (run evs init)..<idCounter (step ev (run evs init))]
    else keeps_ids (run evs init) (step ev (run evs init))) \<and>
   (\<forall>i\<in>set (all_ids (step ev (run evs init))).
      i \<in> set (all_ids (run evs init)) \<or> idCounter (run evs init) \<le> i) \<and>
   (case ev of
      Loaded dat \<Rightarrow>
        projects (step ev (run evs init)) = d_projects dat \<and>
        issues (step ev (run evs init)) = issues (run evs init) @ d_issues dat
    | _ \<Rightarrow>
        projects (step ev (run evs init)) = projects (run evs init) \<and>
        issues (step ev (run evs init)) = issues (run evs init))"
proof -
  let ?st = "run evs init"
  have 1: "ids_ok ?st" by (rule ids_ok_run)
  have 2: "idCounter ?st \<le> idCounter (step ev ?st)" by (rule step_counter)
  have l: "all_ids (step ev ?st) = [idCounter ?st..<idCounter (step ev ?st)]" if "is_load ev"
    using that by (cases ev) (simp_all add: getSessions_done_ok(7))
  have k: "keeps_ids ?st (step ev ?st)" if "\<not> is_load ev"
    using that by (rule step_keeps_ids)
  have 4: "\<forall>i\<in>set (all_ids (step ev ?st)). i \<in> set (all_ids ?st) \<or> idCounter ?st \<le> i"
  proof (cases "is_load ev")
    case True
    show ?thesis unfolding l[OF True] by simp
  next
    case False
    show ?thesis using keeps_ids_old_or_fresh[OF k[OF False]] by blast
  qed
  have 5: "(case ev of
      Loaded dat \<Rightarrow>
        projects (step ev ?st) = d_projects dat \<and>
        issues (step ev ?st) = issues ?st @ d_issues dat
    | _ \<Rightarrow>
        projects (step ev ?st) = projects ?st \<and> issues (step ev ?st) = issues ?st)"
  proof (cases "is_load ev")
    case True
    then show ?thesis
      by (cases ev) (simp_all add: getSessions_done_issues getSessions_done_projects)
  next
    case False
    from step_reference_data[OF False, of ?st] False show ?thesis
      by (cases ev) simp_all
  qed
  from 1 2 l k 4 5 show ?thesis by simp
qed

text \<open>
  Claim C2, as stated, fails for projects and issues. After the load of the example
  response the counter has given out 0 to 4, to the sessions, entries and commit; the
  project and the issue in the store have no local identity.
\<close>

theorem load_numbers_no_reference_data:
  "map p_idcounter (projects (run [Loaded ex_data] init)) = [None] \<and>
   map i_idcounter (issues (run [Loaded ex_data] init)) = [None] \<and>
   all_ids (run [Loaded ex_data] init) = [0, 1, 2, 3, 4] \<and>
   idCounter (run [Loaded ex_data] init) = 5"
  by code_simp

text \<open>
  C2 after one load of the example response, for an export response and for a second
  load.
\<close>

theorem local_identities_witness:
  "all_ids (run [Loaded ex_data] init) = [0, 1, 2, 3, 4] \<and>
   idCounter (run [Loaded ex_data] init) = 5 \<and>
   ids_ok (run [Loaded ex_data] init) \<and>
   map e_idcounter (timeEntries (step (Exported ''2019-03-01'' ex_response)
     (run [Loaded ex_data] init))) = [2, 3, 5] \<and>
   projects (step (Exported ''2019-03-01'' ex_response) (run [Loaded ex_data] init)) =
     [ex_project] \<and>
   issues (step (Exported ''2019-03-01'' ex_response) (run [Loaded ex_data] init)) =
     [ex_issue] \<and>
   all_ids (step (Loaded ex_data) (run [Loaded ex_data] init)) = [5, 6, 7, 8, 9] \<and>
   projects (step (Loaded ex_data) (run [Loaded ex_data] init)) = [ex_project] \<and>
   issues (step (Loaded ex_data) (run [Loaded ex_data] init)) = [ex_issue, ex_issue]"
proof -
  let ?st = "run [Loaded ex_data] init"
  note t1 = local_identities[of "[Loaded ex_data]" "Exported ''2019-03-01'' ex_response"]
  note t2 = local_identities[of "[Loaded ex_data]" "Loaded ex_data"]
  have a: "all_ids ?st = [0, 1, 2, 3, 4]" by code_simp
  have n: "idCounter ?st = 5" by code_simp
  have n1: "idCounter (step (Exported ''2019-03-01'' ex_response) ?st) = 6" by code_simp
  have n2: "idCounter (step (Loaded ex_data) ?st) = 10" by code_simp
  have e: "map e_idcounter (timeEntries ?st) = [2, 3]" by code_simp
  have p: "projects ?st = [ex_project]" "issues ?st = [ex_issue]" by code_simp+
  have dp: "d_projects ex_data = [ex_project]" "d_issues ex_data = [ex_issue]" by code_simp+
  from t1 have i: "ids_ok ?st" by blast
  from t1 have "keeps_ids ?st (step (Exported ''2019-03-01'' ex_response) ?st)" by simp
  then have k: "map e_idcounter (timeEntries (step (Exported ''2019-03-01'' ex_response) ?st)) =
      [2, 3] @ [5..<6]"
    unfolding keeps_ids_def e n n1 by blast
  from t1 have "projects (step (Exported ''2019-03-01'' ex_response) ?st) = projects ?st"
    "issues (step (Exported ''2019-03-01'' ex_response) ?st) = issues ?st"
    by simp_all
  then have r1: "projects (step (Exported ''2019-03-01'' ex_response) ?st) = [ex_project]"
    "issues (step (Exported ''2019-03-01'' ex_response) ?st) = [ex_issue]"
    by (simp_all only: p)
  from t2 have l: "all_ids (step (Loaded ex_data) ?st) = [5..<10]"
    unfolding n n2 by simp
  from t2 have "projects (step (Loaded ex_data) ?st) = d_projects ex_data"
    "issues (step (Loaded ex_data) ?st) = issues ?st @ d_issues ex_data"
    by simp_all
  then have r2: "projects (step (Loaded ex_data) ?st) = [ex_project]"
    "issues (step (Loaded ex_data) ?st) = [ex_issue, ex_issue]"
    by (simp_all only: p dp append.simps)
  have u: "[5..<6] = [5::nat]" "[5..<10] = [5::nat, 6, 7, 8, 9]" by code_simp+
  from a n i k l r1 r2 show ?thesis unfolding u by simp
qed

subsection \<open>Export, split and remove\<close>



lemma ids_fresh_run: "idCounter (run evs init) \<notin> set (all_ids (run evs init))"
  using ids_ok_run[of evs] unfolding ids_ok_def by fastforce



lemma refreshEntry_matches:
  assumes "\<forall>e\<in>set (timeEntries st). e_id e = e_id n \<longrightarrow> chartItems st (e_date_group e) \<noteq> None"
  shows "fst (refreshEntry n st) = None"
    "timeEntries (snd (refreshEntry n st)) =
       map (\<lambda>e. if e_id e = e_id n then refresh_fields n e else e) (timeEntries st)"
    "\<forall>e\<in>set (timeEntries st). e_id e = e_id n \<longrightarrow>
       has_shown n (chartItems (snd (refreshEntry n st))) (e_date_group e) (e_idcounter e)"
proof -
  from refresh_loop_entries[OF assms] obtain ch' where
    l: "refresh_loop n (timeEntries st) (chartItems st) =
        (None, map (\<lambda>e. if e_id e = e_id n then refresh_fields n e else e) (timeEntries st), ch')"
    by blast
  from refresh_loop_rows[OF assms l]
  have rows: "\<forall>e\<in>set (timeEntries st). e_id e = e_id n \<longrightarrow>
      has_shown n ch' (e_date_group e) (e_idcounter e)" by blast
  from l show "fst (refreshEntry n st) = None" by (simp add: refreshEntry_def)
  from l show "timeEntries (snd (refreshEntry n st)) =
       map (\<lambda>e. if e_id e = e_id n then refresh_fields n e else e) (timeEntries st)"
    by (simp add: refreshEntry_def)
  from l rows show "\<forall>e\<in>set (timeEntries st). e_id e = e_id n \<longrightarrow>
       has_shown n (chartItems (snd (refreshEntry n st))) (e_date_group e) (e_idcounter e)"
    by (simp add: refreshEntry_def)
qed

lemma has_shown_append:
  "has_shown n ch d i \<Longrightarrow> ch d' = Some c \<Longrightarrow> has_shown n (ch(d' \<mapsto> c @ [r])) d i"
  unfolding has_shown_def by (cases "d = d'") (auto split: option.splits)

lemma rows_fresh_inv:
  "inv st \<Longrightarrow> chartItems st d = Some c \<Longrightarrow> idCounter st \<notin> set (map r_id c)"
  unfolding inv_def rows_ok_def by fastforce

text \<open>
  Claim C3, as the code has it. With the entry \<open>E0\<close> selected, the split button sends a
  request whose split point is built from the date group of \<open>E0\<close> and the split field.
  Let the response arrive in a state the page can reach, in which an entry \<open>E\<close> with
  \<open>E0\<close>'s remote id and date group is in the store, let its first entry carry that
  remote id, and let the date group of every entry of the store with that remote id have
  a row collection. Then \<open>refreshEntry\<close> does not throw and overwrites start, end and
  description of \<open>E\<close> (and of every other entry with that remote id), which keeps its
  local identity, and the collection of \<open>E\<close>'s day holds \<open>E\<close>'s row with the response's
  span and description. The callback then creates one entry from the second entry of the
  response, with the old counter as local identity and the date group of \<open>E0\<close>, not a day
  computed from the split point, and appends its projection to the collection of that
  date group.
\<close>

theorem splitEntry_reconciles:
  assumes "global_selected st0 = Some (SelEntry (Some E0))"
    and "E \<in> set (timeEntries (run evs init))"
    and "e_id E = e_id E0" and "e_date_group E = e_date_group E0"
    and "e_id (entry1 dat) = e_id E"
    and "\<forall>e\<in>set (timeEntries (run evs init)).
           e_id e = e_id E \<longrightarrow> chartItems (run evs init) (e_date_group e) \<noteq> None"
  shows "btn_split_click frm st0 = Inr (Some (splitEntry (e_id E0) (e_date_group E0) frm)) \<and>
         q_split_time (fst (splitEntry (e_id E0) (e_date_group E0) frm)) =
           Some (Date (e_date_group E0 @ '' '' @ f_split_time frm)) \<and>
         fst (refreshEntry (entry1 dat) (run evs init)) = None \<and>
         timeEntries (snd (refreshEntry (entry1 dat) (run evs init))) =
           map (\<lambda>e. if e_id e = e_id E then refresh_fields (entry1 dat) e else e)
             (timeEntries (run evs init)) \<and>
         e_idcounter (refresh_fields (entry1 dat) E) = e_idcounter E \<and>
         has_shown (entry1 dat) (chartItems (snd (refreshEntry (entry1 dat) (run evs init))))
           (e_date_group E) (e_idcounter E) \<and>
         snd (splitEntry (e_id E0) (e_date_group E0) frm) dat (run evs init) =
           (None, (snd (refreshEntry (entry1 dat) (run evs init)))
              \<lparr>idCounter := idCounter (run evs init) + 1,
               timeEntries :=
                 map (\<lambda>e. if e_id e = e_id E then refresh_fields (entry1 dat) e else e)
                   (timeEntries (run evs init)) @
                 [created_entry (e_date_group E0) (entry2 dat) (idCounter (run evs init))],
               chartItems := (chartItems (snd (refreshEntry (entry1 dat) (run evs init))))
                 (e_date_group E0 \<mapsto>
                    rows_of (snd (refreshEntry (entry1 dat) (run evs init))) (e_date_group E0) @
                    [fst (makeRow (Entry (created_entry (e_date_group E0) (entry2 dat)
                       (idCounter (run evs init)))))])\<rparr>) \<and>
         has_shown (entry1 dat)
           (chartItems (snd (snd (splitEntry (e_id E0) (e_date_group E0) frm) dat (run evs init))))
           (e_date_group E) (e_idcounter E) \<and>
         idCounter (run evs init) \<notin> set (all_ids (run evs init))"
proof -
  let ?st = "run evs init" and ?dg = "e_date_group E0" and ?n = "entry1 dat"
  let ?st1 = "snd (refreshEntry ?n ?st)"
  have 1: "btn_split_click frm st0 = Inr (Some (splitEntry (e_id E0) ?dg frm))"
    using assms(1) by (simp add: btn_split_click_def)
  have 2: "q_split_time (fst (splitEntry (e_id E0) ?dg frm)) =
           Some (Date (?dg @ '' '' @ f_split_time frm))"
    by (simp add: splitEntry_def)
  have h: "\<forall>e\<in>set (timeEntries ?st). e_id e = e_id ?n \<longrightarrow> chartItems ?st (e_date_group e) \<noteq> None"
    using assms(6) unfolding assms(5) .
  note m = refreshEntry_matches[OF h]
  have 3: "fst (refreshEntry ?n ?st) = None" by (rule m(1))
  have 4: "timeEntries ?st1 =
      map (\<lambda>e. if e_id e = e_id E then refresh_fields ?n e else e) (timeEntries ?st)"
    using m(2) unfolding assms(5) .
  have 5: "e_idcounter (refresh_fields ?n E) = e_idcounter E" by simp
  have 6: "has_shown ?n (chartItems ?st1) (e_date_group E) (e_idcounter E)"
    using bspec[OF m(3) assms(2)] assms(5) by simp
  have i1: "inv ?st1" by (rule inv_refreshEntry[OF inv_run])
  have n1: "idCounter ?st1 = idCounter ?st" by (rule refreshEntry_frame(3))
  from 6 obtain c1 where c1: "chartItems ?st1 ?dg = Some c1"
    unfolding has_shown_def assms(4) by (auto split: option.splits)
  then have r1: "rows_of ?st1 ?dg = c1" by (simp add: rows_of_def)
  have f: "idCounter ?st1 \<notin> set (map r_id c1)" by (rule rows_fresh_inv[OF i1 c1])
  have k: "createEntry ?dg (entry2 dat) ?st1 =
      (None, ?st1\<lparr>idCounter := idCounter ?st1 + 1,
               timeEntries := timeEntries ?st1 @ [created_entry ?dg (entry2 dat) (idCounter ?st1)],
               chartItems := (chartItems ?st1)(?dg \<mapsto>
                 c1 @ [fst (makeRow (Entry (created_entry ?dg (entry2 dat) (idCounter ?st1))))])\<rparr>)"
    by (rule createEntry_ok[OF c1 f])
  have s3: "snd (splitEntry (e_id E0) ?dg frm) dat ?st = createEntry ?dg (entry2 dat) ?st1"
    using 3 unfolding splitEntry_def snd_conv splitEntry_done_def
    by (cases "refreshEntry ?n ?st") simp
  have 7: "snd (splitEntry (e_id E0) ?dg frm) dat ?st =
           (None, ?st1
              \<lparr>idCounter := idCounter ?st + 1,
               timeEntries :=
                 map (\<lambda>e. if e_id e = e_id E then refresh_fields ?n e else e) (timeEntries ?st) @
                 [created_entry ?dg (entry2 dat) (idCounter ?st)],
               chartItems := (chartItems ?st1)(?dg \<mapsto>
                 rows_of ?st1 ?dg @
                 [fst (makeRow (Entry (created_entry ?dg (entry2 dat) (idCounter ?st))))])\<rparr>)"
    unfolding s3 k n1 4 r1 ..
  have 8: "has_shown ?n (chartItems (snd (snd (splitEntry (e_id E0) ?dg frm) dat ?st)))
      (e_date_group E) (e_idcounter E)"
    unfolding 7 r1 using has_shown_append[OF 6 c1] by simp
  have 9: "idCounter ?st \<notin> set (all_ids ?st)" by (rule ids_fresh_run)
  from 1 2 3 4 5 6 7 8 9 show ?thesis by blast
qed

text \<open>
  Claim C3, as stated, fails. In the store two entries carry the remote id 101; the
  selected one is on the first of March, the other on a day without row collection.
  The callback overwrites the other entry, throws at its \<open>c.update\<close>, leaves the selected
  entry as it was and creates no entry and no row.
\<close>

theorem splitEntry_throws_counterexample:
  "global_selected ex_dup_selected = Some (SelEntry (Some ex_entry1)) \<and>
   map e_id (timeEntries ex_dup_selected) = [101, 101] \<and>
   map e_date_group (timeEntries ex_dup_selected) = [''2019-03-02'', ''2019-03-01''] \<and>
   map e_end_time (timeEntries ex_dup_selected) =
     [Date ''2019-03-02T11:00:00'', Date ''2019-03-01T11:00:00''] \<and>
   e_id (entry1 ex_split) = e_id ex_entry1 \<and>
   fst (snd (splitEntry (e_id ex_entry1) (e_date_group ex_entry1) ex_form) ex_split
     ex_dup_selected) = Some TypeError \<and>
   map e_idcounter (timeEntries (snd (snd (splitEntry (e_id ex_entry1) (e_date_group ex_entry1)
     ex_form) ex_split ex_dup_selected))) = [1, 2] \<and>
   map e_end_time (timeEntries (snd (snd (splitEntry (e_id ex_entry1) (e_date_group ex_entry1)
     ex_form) ex_split ex_dup_selected))) =
     [Date ''2019-03-01T10:30:00'', Date ''2019-03-01T11:00:00''] \<and>
   map r_id (rows_of (snd (snd (splitEntry (e_id ex_entry1) (e_date_group ex_entry1)
     ex_form) ex_split ex_dup_selected)) ''2019-03-01'') = [0, 2]"
  by code_simp

text \<open>
  C3 at the example: the entry 101 of the first of March, 10:00 to 11:00, split at 10:30.
\<close>

theorem splitEntry_reconciles_witness:
  "global_selected ex_selected_entry = Some (SelEntry (Some ex_entry1)) \<and>
   e_date_group ex_entry1 = ''2019-03-01'' \<and>
   map e_id (timeEntries ex_selected_entry) = [101, 102] \<and>
   btn_split_click ex_form ex_selected_entry =
     Inr (Some (splitEntry (e_id ex_entry1) (e_date_group ex_entry1) ex_form)) \<and>
   q_split_time (fst (splitEntry (e_id ex_entry1) (e_date_group ex_entry1) ex_form)) =
     Some (Date ''2019-03-01 10:30:00'') \<and>
   fst (snd (splitEntry (e_id ex_entry1) (e_date_group ex_entry1) ex_form) ex_split
     ex_selected_entry) = None \<and>
   map e_idcounter (timeEntries (snd (snd (splitEntry (e_id ex_entry1) (e_date_group ex_entry1)
     ex_form) ex_split ex_selected_entry))) = [2, 3, 5] \<and>
   map e_end_time (timeEntries (snd (snd (splitEntry (e_id ex_entry1) (e_date_group ex_entry1)
     ex_form) ex_split ex_selected_entry))) =
     [Date ''2019-03-01T10:30:00'', Date ''2019-03-02T11:00:00'', Date ''2019-03-01T11:00:00''] \<and>
   map e_date_group (timeEntries (snd (snd (splitEntry (e_id ex_entry1) (e_date_group ex_entry1)
     ex_form) ex_split ex_selected_entry))) = [''2019-03-01'', ''2019-03-02'', ''2019-03-01''] \<and>
   map r_id (rows_of (snd (snd (splitEntry (e_id ex_entry1) (e_date_group ex_entry1)
     ex_form) ex_split ex_selected_entry)) ''2019-03-01'') = [0, 1, 2, 4, 5] \<and>
   has_shown (entry1 ex_split)
     (chartItems (snd (snd (splitEntry (e_id ex_entry1) (e_date_group ex_entry1) ex_form)
        ex_split ex_selected_entry)))
     (e_date_group ex_entry1) (e_idcounter ex_entry1)"
proof -
  let ?evs = "[Loaded ex_data, Selected ''2019-03-01'' [2]]"
  have h1: "global_selected ex_selected_entry = Some (SelEntry (Some ex_entry1))" by code_simp
  have h2: "ex_entry1 \<in> set (timeEntries (run ?evs init))" by code_simp
  have h5: "e_id (entry1 ex_split) = e_id ex_entry1" by code_simp
  have h6: "\<forall>e\<in>set (timeEntries (run ?evs init)).
      e_id e = e_id ex_entry1 \<longrightarrow> chartItems (run ?evs init) (e_date_group e) \<noteq> None"
    by code_simp
  note t = splitEntry_reconciles[OF h1 h2 refl refl h5 h6, of ex_form,
      folded ex_selected_entry_def]
  have d: "e_date_group ex_entry1 = ''2019-03-01''" by code_simp
  have ids: "map e_id (timeEntries ex_selected_entry) = [101, 102]" by code_simp
  from t have 1: "btn_split_click ex_form ex_selected_entry =
     Inr (Some (splitEntry (e_id ex_entry1) (e_date_group ex_entry1) ex_form))" by blast
  from t have "q_split_time (fst (splitEntry (e_id ex_entry1) (e_date_group ex_entry1) ex_form)) =
     Some (Date (e_date_group ex_entry1 @ '' '' @ f_split_time ex_form))" by blast
  moreover have "e_date_group ex_entry1 @ '' '' @ f_split_time ex_form = ''2019-03-01 10:30:00''"
    by code_simp
  ultimately have 2: "q_split_time (fst (splitEntry (e_id ex_entry1) (e_date_group ex_entry1)
     ex_form)) = Some (Date ''2019-03-01 10:30:00'')" by (simp only:)
  let ?st1 = "snd (refreshEntry (entry1 ex_split) ex_selected_entry)"
  let ?r = "?st1
              \<lparr>idCounter := idCounter ex_selected_entry + 1,
               timeEntries :=
                 map (\<lambda>e. if e_id e = e_id ex_entry1 then refresh_fields (entry1 ex_split) e else e)
                   (timeEntries ex_selected_entry) @
                 [created_entry (e_date_group ex_entry1) (entry2 ex_split)
                    (idCounter ex_selected_entry)],
               chartItems := (chartItems ?st1)(e_date_group ex_entry1 \<mapsto>
                 rows_of ?st1 (e_date_group ex_entry1) @
                 [fst (makeRow (Entry (created_entry (e_date_group ex_entry1) (entry2 ex_split)
                    (idCounter ex_selected_entry))))])\<rparr>"
  from t have eq: "snd (splitEntry (e_id ex_entry1) (e_date_group ex_entry1) ex_form) ex_split
      ex_selected_entry = (None, ?r)" by blast
  have 3: "fst (snd (splitEntry (e_id ex_entry1) (e_date_group ex_entry1) ex_form) ex_split
      ex_selected_entry) = None" by (simp only: eq fst_conv)
  have "map e_idcounter (timeEntries ?r) = [2, 3, 5]" by code_simp
  then have 4: "map e_idcounter (timeEntries (snd (snd (splitEntry (e_id ex_entry1)
      (e_date_group ex_entry1) ex_form) ex_split ex_selected_entry))) = [2, 3, 5]"
    by (simp only: eq snd_conv)
  have "map e_end_time (timeEntries ?r) =
     [Date ''2019-03-01T10:30:00'', Date ''2019-03-02T11:00:00'', Date ''2019-03-01T11:00:00'']"
    by code_simp
  then have 5: "map e_end_time (timeEntries (snd (snd (splitEntry (e_id ex_entry1)
      (e_date_group ex_entry1) ex_form) ex_split ex_selected_entry))) =
     [Date ''2019-03-01T10:30:00'', Date ''2019-03-02T11:00:00'', Date ''2019-03-01T11:00:00'']"
    by (simp only: eq snd_conv)
  have "map e_date_group (timeEntries ?r) = [''2019-03-01'', ''2019-03-02'', ''2019-03-01'']"
    by code_simp
  then have 6: "map e_date_group (timeEntries (snd (snd (splitEntry (e_id ex_entry1)
      (e_date_group ex_entry1) ex_form) ex_split ex_selected_entry))) =
      [''2019-03-01'', ''2019-03-02'', ''2019-03-01'']"
    by (simp only: eq snd_conv)
  have "map r_id (rows_of ?r ''2019-03-01'') = [0, 1, 2, 4, 5]" by code_simp
  then have 7: "map r_id (rows_of (snd (snd (splitEntry (e_id ex_entry1)
      (e_date_group ex_entry1) ex_form) ex_split ex_selected_entry)) ''2019-03-01'') =
      [0, 1, 2, 4, 5]"
    by (simp only: eq snd_conv)
  from t have 8: "has_shown (entry1 ex_split)
     (chartItems (snd (snd (splitEntry (e_id ex_entry1) (e_date_group ex_entry1) ex_form)
        ex_split ex_selected_entry)))
     (e_date_group ex_entry1) (e_idcounter ex_entry1)" by blast
  from h1 d ids 1 2 3 4 5 6 7 8 show ?thesis by blast
qed

lemma first_where_distinct:
  assumes "distinct (map f xs)" "x \<in> set xs"
  shows "first_where (\<lambda>y. f y = f x) xs = Some x"
  using assms
proof (induction xs)
  case Nil
  then show ?case by simp
next
  case (Cons y ys)
  show ?case
  proof (cases "y = x")
    case True
    then show ?thesis by (simp add: first_where_def)
  next
    case False
    with Cons.prems have x: "x \<in> set ys" by simp
    with Cons.prems(1) have "f y \<noteq> f x" by force
    moreover from Cons.IH x Cons.prems(1) have "first_where (\<lambda>y. f y = f x) ys = Some x" by simp
    ultimately show ?thesis by (simp add: first_where_def)
  qed
qed

lemma entry_ids_distinct_run: "distinct (map e_idcounter (timeEntries (run evs init)))"
  using ids_ok_run[of evs] by (simp add: ids_ok_def all_ids_def)

lemma callbacks_are_refreshEntry:
  "snd (updateEntry entryId date_str frm) = refreshEntry"
  "onMove d item frm st = Inr (Some (req, cb), st') \<Longrightarrow> cb = refreshEntry"
  by (auto simp: updateEntry_def onMove_def split: if_splits option.splits prod.splits)

text \<open>
  Claim C6, as the code has it. In a state the page can reach, removing the row of the
  entry \<open>E\<close> sends the delete request with \<open>E\<close>'s remote id, and the widget's callback takes
  the row with that id out of the collection of that day; every other row, every other
  collection and the entity collections stay as they are. The callback of the delete
  response returns the state it was given. No event other than a load takes an entity
  out of the store.
\<close>

theorem remove_only_drops_row:
  assumes "chartItems (run evs init) d = Some c"
    and "item \<in> set c" and "r_group item = Some ''entry''"
    and "E \<in> set (timeEntries (run evs init))" and "e_idcounter E = r_id item"
  shows "onRemove d item (run evs init) =
           Inr (Some (deleteEntry (e_id E)),
                (run evs init)\<lparr>chartItems :=
                   (chartItems (run evs init))(d \<mapsto> filter (\<lambda>r. r_id r \<noteq> r_id item) c)\<rparr>) \<and>
         fst (deleteEntry (e_id E)) =
           \<lparr>url = ''delete'', q_id = Some (e_id E), q_start_time = None, q_end_time = None,
            q_split_time = None, q_name = None, q_project = None\<rparr> \<and>
         snd (deleteEntry (e_id E)) dat st' = (None, st') \<and>
         (is_load ev \<or> keeps_ids st' (step ev st'))"
proof -
  let ?st = "run evs init"
  have f: "first_where (\<lambda>entry. e_idcounter entry = r_id item) (timeEntries ?st) = Some E"
    using first_where_distinct[OF entry_ids_distinct_run assms(4)] by (simp only: assms(5))
  have 1: "onRemove d item ?st =
           Inr (Some (deleteEntry (e_id E)),
                ?st\<lparr>chartItems := (chartItems ?st)(d \<mapsto> filter (\<lambda>r. r_id r \<noteq> r_id item) c)\<rparr>)"
    using assms(1,3) f by (simp add: onRemove_def map_chart_def ds_remove_def)
  have 2: "fst (deleteEntry (e_id E)) =
           \<lparr>url = ''delete'', q_id = Some (e_id E), q_start_time = None, q_end_time = None,
            q_split_time = None, q_name = None, q_project = None\<rparr>"
    by (simp add: deleteEntry_def)
  have 3: "snd (deleteEntry (e_id E)) dat st' = (None, st')"
    by (simp add: deleteEntry_def deleteEntry_done_def)
  have 4: "is_load ev \<or> keeps_ids st' (step ev st')"
    using step_keeps_ids by blast
  from 1 2 3 4 show ?thesis by blast
qed

text \<open>
  Claim C6, as stated, fails: after the row of the entry 101 was removed and the delete
  response arrived, the row is gone and the entry is still in the store.
\<close>

theorem delete_keeps_entity:
  "map e_id (timeEntries ex_loaded) = [101, 102] \<and>
   map r_id (rows_of ex_loaded ''2019-03-01'') = [0, 1, 2, 4] \<and>
   map e_id (timeEntries ex_removed) = [101, 102] \<and>
   map r_id (rows_of ex_removed ''2019-03-01'') = [0, 1, 4]"
  by code_simp

text \<open>
  C6 at the loaded example, for the row of the entry 101.
\<close>

theorem remove_only_drops_row_witness:
  "onRemove ''2019-03-01'' (fst (makeRow (Entry ex_entry1))) (run [Loaded ex_data] init) =
     Inr (Some (deleteEntry (e_id ex_entry1)),
          (run [Loaded ex_data] init)\<lparr>chartItems :=
             (chartItems (run [Loaded ex_data] init))(''2019-03-01'' \<mapsto>
                filter (\<lambda>r. r_id r \<noteq> r_id (fst (makeRow (Entry ex_entry1))))
                  (rows_of (run [Loaded ex_data] init) ''2019-03-01''))\<rparr>) \<and>
   map r_id (filter (\<lambda>r. r_id r \<noteq> r_id (fst (makeRow (Entry ex_entry1))))
     (rows_of (run [Loaded ex_data] init) ''2019-03-01'')) = [0, 1, 4] \<and>
   q_id (fst (deleteEntry (e_id ex_entry1))) = Some 101 \<and>
   snd (deleteEntry (e_id ex_entry1)) ''ok'' ex_loaded = (None, ex_loaded) \<and>
   keeps_ids ex_loaded (step (Removed ''2019-03-01'' 2) ex_loaded)"
proof -
  let ?st = "run [Loaded ex_data] init"
  let ?item = "fst (makeRow (Entry ex_entry1))"
  have h1: "chartItems ?st ''2019-03-01'' = Some (rows_of ?st ''2019-03-01'')" by code_simp
  have h2: "?item \<in> set (rows_of ?st ''2019-03-01'')" by code_simp
  have h3: "r_group ?item = Some ''entry''" by code_simp
  have h4: "ex_entry1 \<in> set (timeEntries ?st)" by code_simp
  have h5: "e_idcounter ex_entry1 = r_id ?item" by code_simp
  note t = remove_only_drops_row[OF h1 h2 h3 h4 h5, of "''ok''" ex_loaded
      "Removed ''2019-03-01'' 2"]
  from t have 1: "onRemove ''2019-03-01'' ?item ?st =
     Inr (Some (deleteEntry (e_id ex_entry1)),
          ?st\<lparr>chartItems := (chartItems ?st)(''2019-03-01'' \<mapsto>
                filter (\<lambda>r. r_id r \<noteq> r_id ?item) (rows_of ?st ''2019-03-01''))\<rparr>)" by blast
  have 2: "map r_id (filter (\<lambda>r. r_id r \<noteq> r_id ?item) (rows_of ?st ''2019-03-01'')) = [0, 1, 4]"
    by code_simp
  from t have "fst (deleteEntry (e_id ex_entry1)) =
           \<lparr>url = ''delete'', q_id = Some (e_id ex_entry1), q_start_time = None,
            q_end_time = None, q_split_time = None, q_name = None, q_project = None\<rparr>" by blast
  then have "q_id (fst (deleteEntry (e_id ex_entry1))) = Some (e_id ex_entry1)" by simp
  moreover have "e_id ex_entry1 = 101" by code_simp
  ultimately have 3: "q_id (fst (deleteEntry (e_id ex_entry1))) = Some 101" by (simp only:)
  from t have 4: "snd (deleteEntry (e_id ex_entry1)) ''ok'' ex_loaded = (None, ex_loaded)" by blast
  have "\<not> is_load (Removed ''2019-03-01'' 2)" by simp
  with t have 5: "keeps_ids ex_loaded (step (Removed ''2019-03-01'' 2) ex_loaded)" by blast
  from 1 2 3 4 5 show ?thesis by blast
qed

end
